theory Spec2Isabelle
  imports Complex_Main
begin

section \<open>Problem instance\<close>

text \<open>
  The dictionary that \<^verbatim>\<open>generate_data\<close> returns and that both formulation builders
  read. Python dictionaries are maps; the id lists keep their order and may, as far as
  the builders are concerned, hold any strings. Python floats are idealised as reals,
  Python integers are unbounded.
\<close>

record data =
  households :: "string list"
  existing_hospitals :: "string list"
  candidate_hospitals :: "string list"
  all_hospitals :: "string list"
  population :: "string \<rightharpoonup> int"
  travel_distances :: "string \<rightharpoonup> (string \<rightharpoonup> real)"
  distance_indicators :: "string \<rightharpoonup> (string \<rightharpoonup> int)"
  max_travel_distance :: real
  max_new_hospitals :: int

text \<open>Exceptions of the Python code, as values. A dictionary is indexed either by a
  string or by a pair of strings (the assignment variables). \<open>AttributeError\<close> is what
  the engine raises when an attribute such as the objective value is read while it is
  not available.\<close>

datatype error =
  KeyError_str string | KeyError_pair string string | ValueError | IndexError | AttributeError

definition getitem :: "(string \<rightharpoonup> 'v) \<Rightarrow> string \<Rightarrow> error + 'v" where
  "getitem m k = (case m k of None \<Rightarrow> Inl (KeyError_str k) | Some v \<Rightarrow> Inr v)"

definition getitem2 :: "(string \<times> string \<rightharpoonup> 'v) \<Rightarrow> string \<Rightarrow> string \<Rightarrow> error + 'v" where
  "getitem2 m i j = (case m (i, j) of None \<Rightarrow> Inl (KeyError_pair i j) | Some v \<Rightarrow> Inr v)"

text \<open>A \<^verbatim>\<open>for\<close> loop whose body may raise: the first exception ends the loop.
  \<open>for_each\<close> threads a state through the loop, \<open>collect\<close> is a generator consumed
  from left to right.\<close>

fun for_each :: "('a \<Rightarrow> 's \<Rightarrow> error + 's) \<Rightarrow> 'a list \<Rightarrow> 's \<Rightarrow> error + 's" where
  "for_each body [] s = Inr s"
| "for_each body (a # as) s =
     (case body a s of Inl e \<Rightarrow> Inl e | Inr s' \<Rightarrow> for_each body as s')"

fun collect :: "('a \<Rightarrow> error + 'b) \<Rightarrow> 'a list \<Rightarrow> error + 'b list" where
  "collect f [] = Inr []"
| "collect f (a # as) =
     (case f a of Inl e \<Rightarrow> Inl e
      | Inr b \<Rightarrow> (case collect f as of Inl e \<Rightarrow> Inl e | Inr bs \<Rightarrow> Inr (b # bs)))"

section \<open>The engine's model object\<close>

text \<open>
  Modelled from the spec: the MILP engine (\<^verbatim>\<open>gurobipy\<close>) is an external library, not part
  of the repository. This is the interface that the specification requires of it and that
  the builders call: create a binary variable, build a linear expression, add a linear
  constraint with an optional lazy flag, set the objective. A model holds its variables
  in creation order (a variable is its column index), one objective and the constraints
  in insertion order. A linear expression is a list of terms \<open>coefficient * variable\<close>
  and a constant. A constraint keeps both sides as written, its name and its lazy flag;
  \<open>addConstr\<close> accepts the flag and never raises.
\<close>

datatype vtype = BINARY | CONTINUOUS | INTEGER

datatype objsense = MINIMIZE | MAXIMIZE

datatype sense = LessEqual | Equal | GreaterEqual

datatype linexpr = LinExpr "(int \<times> nat) list" int

record constr =
  c_lhs :: linexpr
  c_sense :: sense
  c_rhs :: linexpr
  c_name :: string
  c_lazy :: bool

record model =
  m_name :: string
  m_vars :: "(vtype \<times> string) list"
  m_objective :: linexpr
  m_sense :: objsense
  m_constrs :: "constr list"

definition Model :: "string \<Rightarrow> model" where
  "Model name = \<lparr>m_name = name, m_vars = [], m_objective = LinExpr [] 0,
                 m_sense = MINIMIZE, m_constrs = []\<rparr>"

definition addVar :: "model \<Rightarrow> vtype \<Rightarrow> string \<Rightarrow> nat \<times> model" where
  "addVar M vt name = (length (m_vars M), M\<lparr>m_vars := m_vars M @ [(vt, name)]\<rparr>)"

definition setObjective :: "model \<Rightarrow> linexpr \<Rightarrow> objsense \<Rightarrow> model" where
  "setObjective M e s = M\<lparr>m_objective := e, m_sense := s\<rparr>"

definition addConstr :: "model \<Rightarrow> linexpr \<Rightarrow> sense \<Rightarrow> linexpr \<Rightarrow> string \<Rightarrow> bool \<Rightarrow> model" where
  "addConstr M l s r name lz =
     M\<lparr>m_constrs := m_constrs M @
        [\<lparr>c_lhs = l, c_sense = s, c_rhs = r, c_name = name, c_lazy = lz\<rparr>]\<rparr>"

text \<open>\<^verbatim>\<open>quicksum\<close> of variables, and of coefficient-variable products.\<close>

definition quicksum :: "(int \<times> nat) list \<Rightarrow> linexpr" where
  "quicksum ts = LinExpr ts 0"

section \<open>The formulation builders\<close>

text \<open>\<^verbatim>\<open>for j in all_hospitals: x[j] = model.addVar(vtype=BINARY, name=f"x_{j}")\<close>\<close>

fun add_x_vars :: "string list \<Rightarrow> model \<Rightarrow> (string \<rightharpoonup> nat) \<Rightarrow> model \<times> (string \<rightharpoonup> nat)" where
  "add_x_vars [] M x = (M, x)"
| "add_x_vars (j # js) M x =
     (case addVar M BINARY (''x_'' @ j) of (v, M') \<Rightarrow> add_x_vars js M' (x(j \<mapsto> v)))"

text \<open>\<^verbatim>\<open>for i in households: for j in all_hospitals: y[i, j] = model.addVar(...)\<close>\<close>

fun add_y_row :: "string \<Rightarrow> string list \<Rightarrow> model \<Rightarrow> (string \<times> string \<rightharpoonup> nat)
    \<Rightarrow> model \<times> (string \<times> string \<rightharpoonup> nat)" where
  "add_y_row i [] M y = (M, y)"
| "add_y_row i (j # js) M y =
     (case addVar M BINARY (''y_'' @ i @ ''_'' @ j) of
        (v, M') \<Rightarrow> add_y_row i js M' (y((i, j) \<mapsto> v)))"

fun add_y_vars :: "string list \<Rightarrow> string list \<Rightarrow> model \<Rightarrow> (string \<times> string \<rightharpoonup> nat)
    \<Rightarrow> model \<times> (string \<times> string \<rightharpoonup> nat)" where
  "add_y_vars [] js M y = (M, y)"
| "add_y_vars (i # is) js M y =
     (case add_y_row i js M y of (M', y') \<Rightarrow> add_y_vars is js M' y')"

text \<open>The objective's generator:
  \<^verbatim>\<open>population[i] * y[i, j] for i in households for j in all_hospitals\<close>.\<close>

definition objective_terms :: "(string \<rightharpoonup> int) \<Rightarrow> (string \<times> string \<rightharpoonup> nat) \<Rightarrow> string list
    \<Rightarrow> string list \<Rightarrow> error + (int \<times> nat) list" where
  "objective_terms pop y hs js =
     collect (\<lambda>(i, j). case getitem pop i of Inl e \<Rightarrow> Inl e
                | Inr c \<Rightarrow> (case getitem2 y i j of Inl e \<Rightarrow> Inl e | Inr v \<Rightarrow> Inr (c, v)))
       (List.product hs js)"

text \<open>Constraint 1: \<^verbatim>\<open>model.addConstr(x[j] == 1, name=f"existing_hospital_{j}")\<close>.\<close>

definition add_existing_constrs :: "(string \<rightharpoonup> nat) \<Rightarrow> string list \<Rightarrow> model \<Rightarrow> error + model" where
  "add_existing_constrs x existing M =
     for_each (\<lambda>j M. case getitem x j of Inl e \<Rightarrow> Inl e
                 | Inr v \<Rightarrow> Inr (addConstr M (LinExpr [(1, v)] 0) Equal (LinExpr [] 1)
                                  (''existing_hospital_'' @ j) False))
       existing M"

text \<open>Constraint 2: \<^verbatim>\<open>quicksum(x[j] for j in candidate_hospitals) <= max_new_hospitals\<close>.\<close>

definition add_budget_constr :: "(string \<rightharpoonup> nat) \<Rightarrow> string list \<Rightarrow> int \<Rightarrow> model \<Rightarrow> error + model" where
  "add_budget_constr x candidates p M =
     (case collect (\<lambda>j. case getitem x j of Inl e \<Rightarrow> Inl e | Inr v \<Rightarrow> Inr (1, v)) candidates of
        Inl e \<Rightarrow> Inl e
      | Inr ts \<Rightarrow> Inr (addConstr M (quicksum ts) LessEqual (LinExpr [] p)
                        ''max_new_hospitals'' False))"

text \<open>Constraint 3:
  \<^verbatim>\<open>quicksum(y[i, j] for i in households) <= len(households) * x[j]\<close>, for every site.\<close>

definition add_linking_constrs :: "(string \<rightharpoonup> nat) \<Rightarrow> (string \<times> string \<rightharpoonup> nat) \<Rightarrow> string list
    \<Rightarrow> string list \<Rightarrow> model \<Rightarrow> error + model" where
  "add_linking_constrs x y hs js M =
     for_each (\<lambda>j M.
         case collect (\<lambda>i. case getitem2 y i j of Inl e \<Rightarrow> Inl e | Inr v \<Rightarrow> Inr (1, v)) hs of
           Inl e \<Rightarrow> Inl e
         | Inr ts \<Rightarrow> (case getitem x j of Inl e \<Rightarrow> Inl e
             | Inr v \<Rightarrow> Inr (addConstr M (quicksum ts) LessEqual
                               (LinExpr [(int (length hs), v)] 0)
                               (''facility_open_'' @ j) False)))
       js M"

text \<open>Constraint 4: \<^verbatim>\<open>quicksum(y[i, j] for j in all_hospitals) <= 1\<close>, for every household.\<close>

definition add_single_constrs :: "(string \<times> string \<rightharpoonup> nat) \<Rightarrow> string list \<Rightarrow> string list
    \<Rightarrow> model \<Rightarrow> error + model" where
  "add_single_constrs y hs js M =
     for_each (\<lambda>i M.
         case collect (\<lambda>j. case getitem2 y i j of Inl e \<Rightarrow> Inl e | Inr v \<Rightarrow> Inr (1, v)) js of
           Inl e \<Rightarrow> Inl e
         | Inr ts \<Rightarrow> Inr (addConstr M (quicksum ts) LessEqual (LinExpr [] 1)
                           (''single_assignment_'' @ i) False))
       hs M"

text \<open>Constraint 5, dense:
  \<^verbatim>\<open>model.addConstr(y[i, j] <= distance_indicators[i][j], name=...)\<close> for every pair.\<close>

definition add_distance_constrs :: "(string \<rightharpoonup> (string \<rightharpoonup> int)) \<Rightarrow> (string \<times> string \<rightharpoonup> nat)
    \<Rightarrow> string list \<Rightarrow> string list \<Rightarrow> model \<Rightarrow> error + model" where
  "add_distance_constrs ind y hs js M =
     for_each (\<lambda>i M. for_each (\<lambda>j M.
         case getitem2 y i j of Inl e \<Rightarrow> Inl e
         | Inr v \<Rightarrow> (case getitem ind i of Inl e \<Rightarrow> Inl e
             | Inr row \<Rightarrow> (case getitem row j of Inl e \<Rightarrow> Inl e
                 | Inr a \<Rightarrow> Inr (addConstr M (LinExpr [(1, v)] 0) LessEqual (LinExpr [] a)
                                   (''distance_limit_'' @ i @ ''_'' @ j) False))))
       js M) hs M"

text \<open>Constraint 5, sparse and lazy:
  \<^verbatim>\<open>if distance_indicators[i][j] == 0: model.addConstr(y[i, j] <= 0, name=..., lazy=1)\<close>.\<close>

definition add_distance_constrs_lazy :: "(string \<rightharpoonup> (string \<rightharpoonup> int))
    \<Rightarrow> (string \<times> string \<rightharpoonup> nat) \<Rightarrow> string list \<Rightarrow> string list \<Rightarrow> model \<Rightarrow> error + model" where
  "add_distance_constrs_lazy ind y hs js M =
     for_each (\<lambda>i M. for_each (\<lambda>j M.
         case getitem ind i of Inl e \<Rightarrow> Inl e
         | Inr row \<Rightarrow> (case getitem row j of Inl e \<Rightarrow> Inl e
             | Inr a \<Rightarrow>
                 if a = 0 then
                   (case getitem2 y i j of Inl e \<Rightarrow> Inl e
                    | Inr v \<Rightarrow> Inr (addConstr M (LinExpr [(1, v)] 0) LessEqual (LinExpr [] 0)
                                      (''distance_limit_'' @ i @ ''_'' @ j) True))
                 else Inr M))
       js M) hs M"

text \<open>\<^verbatim>\<open>generate_gurobipy_model\<close> of \<^verbatim>\<open>inefficient_model.py\<close>: the dense formulation.\<close>

definition generate_gurobipy_model :: "data \<Rightarrow> error + model" where
  "generate_gurobipy_model d =
     (case add_x_vars (all_hospitals d) (Model ''TimorLeste_Inefficient'') Map.empty of
        (M1, x) \<Rightarrow>
     (case add_y_vars (households d) (all_hospitals d) M1 Map.empty of
        (M2, y) \<Rightarrow>
     (case objective_terms (population d) y (households d) (all_hospitals d) of
        Inl e \<Rightarrow> Inl e
      | Inr ts \<Rightarrow>
     (case add_existing_constrs x (existing_hospitals d)
             (setObjective M2 (quicksum ts) MAXIMIZE) of
        Inl e \<Rightarrow> Inl e
      | Inr M4 \<Rightarrow>
     (case add_budget_constr x (candidate_hospitals d) (max_new_hospitals d) M4 of
        Inl e \<Rightarrow> Inl e
      | Inr M5 \<Rightarrow>
     (case add_linking_constrs x y (households d) (all_hospitals d) M5 of
        Inl e \<Rightarrow> Inl e
      | Inr M6 \<Rightarrow>
     (case add_single_constrs y (households d) (all_hospitals d) M6 of
        Inl e \<Rightarrow> Inl e
      | Inr M7 \<Rightarrow>
        add_distance_constrs (distance_indicators d) y (households d) (all_hospitals d)
          M7)))))))"

text \<open>\<^verbatim>\<open>build_model\<close> of \<^verbatim>\<open>solve.py\<close>: the sparse, lazy formulation.\<close>

definition build_model :: "data \<Rightarrow> error + model" where
  "build_model d =
     (case add_x_vars (all_hospitals d) (Model ''TimorLeste_Healthcare'') Map.empty of
        (M1, x) \<Rightarrow>
     (case add_y_vars (households d) (all_hospitals d) M1 Map.empty of
        (M2, y) \<Rightarrow>
     (case objective_terms (population d) y (households d) (all_hospitals d) of
        Inl e \<Rightarrow> Inl e
      | Inr ts \<Rightarrow>
     (case add_existing_constrs x (existing_hospitals d)
             (setObjective M2 (quicksum ts) MAXIMIZE) of
        Inl e \<Rightarrow> Inl e
      | Inr M4 \<Rightarrow>
     (case add_budget_constr x (candidate_hospitals d) (max_new_hospitals d) M4 of
        Inl e \<Rightarrow> Inl e
      | Inr M5 \<Rightarrow>
     (case add_linking_constrs x y (households d) (all_hospitals d) M5 of
        Inl e \<Rightarrow> Inl e
      | Inr M6 \<Rightarrow>
     (case add_single_constrs y (households d) (all_hospitals d) M6 of
        Inl e \<Rightarrow> Inl e
      | Inr M7 \<Rightarrow>
        add_distance_constrs_lazy (distance_indicators d) y (households d) (all_hospitals d)
          M7)))))))"

section \<open>Solutions of a formulation\<close>

text \<open>A candidate solution gives every variable an integer value. It is feasible when
  every binary variable has value 0 or 1 and every constraint, lazy or not, holds.\<close>

fun eval_linexpr :: "(nat \<Rightarrow> int) \<Rightarrow> linexpr \<Rightarrow> int" where
  "eval_linexpr sol (LinExpr ts c) = sum_list (map (\<lambda>(a, v). a * sol v) ts) + c"

definition constr_holds :: "(nat \<Rightarrow> int) \<Rightarrow> constr \<Rightarrow> bool" where
  "constr_holds sol c =
     (case c_sense c of
        LessEqual \<Rightarrow> eval_linexpr sol (c_lhs c) \<le> eval_linexpr sol (c_rhs c)
      | Equal \<Rightarrow> eval_linexpr sol (c_lhs c) = eval_linexpr sol (c_rhs c)
      | GreaterEqual \<Rightarrow> eval_linexpr sol (c_lhs c) \<ge> eval_linexpr sol (c_rhs c))"

definition in_domain :: "vtype \<Rightarrow> int \<Rightarrow> bool" where
  "in_domain vt a = (case vt of BINARY \<Rightarrow> a = 0 \<or> a = 1 | _ \<Rightarrow> True)"

definition domains_ok :: "model \<Rightarrow> (nat \<Rightarrow> int) \<Rightarrow> bool" where
  "domains_ok M sol =
     list_all (\<lambda>v. in_domain (fst (m_vars M ! v)) (sol v)) [0..<length (m_vars M)]"

definition feasible :: "model \<Rightarrow> (nat \<Rightarrow> int) \<Rightarrow> bool" where
  "feasible M sol = (domains_ok M sol \<and> list_all (constr_holds sol) (m_constrs M))"

definition objective_value :: "model \<Rightarrow> (nat \<Rightarrow> int) \<Rightarrow> int" where
  "objective_value M sol = eval_linexpr sol (m_objective M)"

definition feasible_values :: "model \<Rightarrow> int set" where
  "feasible_values M = {objective_value M sol | sol. feasible M sol}"

definition is_optimal_value :: "model \<Rightarrow> int \<Rightarrow> bool" where
  "is_optimal_value M a =
     (a \<in> feasible_values M \<and>
      (case m_sense M of MAXIMIZE \<Rightarrow> Ball (feasible_values M) (\<lambda>b. b \<le> a)
       | MINIMIZE \<Rightarrow> Ball (feasible_values M) (\<lambda>b. a \<le> b)))"

section \<open>The instance generator\<close>

text \<open>
  \<^verbatim>\<open>generate_data\<close> draws from two global pseudo-random generators, Python's
  \<^verbatim>\<open>random\<close> and NumPy's \<^verbatim>\<open>np.random\<close>. Their algorithms are not part of the
  repository, so they are parameters of the model: a state type for each and the calls
  that the generator makes, each returning the drawn value and the next state. Seeding
  replaces the state by one that depends on the seed only.
\<close>

record ('g, 'h) rng =
  random_seed :: "int \<Rightarrow> 'g"
  random_uniform :: "real \<Rightarrow> real \<Rightarrow> 'g \<Rightarrow> real \<times> 'g"
  random_randint :: "int \<Rightarrow> int \<Rightarrow> 'g \<Rightarrow> int \<times> 'g"
  np_seed :: "int \<Rightarrow> 'h"
  np_uniform :: "real \<Rightarrow> real \<Rightarrow> 'h \<Rightarrow> real \<times> 'h"
  np_randint :: "int \<Rightarrow> int \<Rightarrow> 'h \<Rightarrow> int \<times> 'h"



text \<open>\<^verbatim>\<open>round(x, 2)\<close>: to the nearest hundredth, ties to the even neighbour.\<close>

definition round_half_even :: "real \<Rightarrow> int" where
  "round_half_even x =
     (let f = \<lfloor>x\<rfloor>; r = x - of_int f
      in if r < 1 / 2 then f else if 1 / 2 < r then f + 1 else if even f then f else f + 1)"

definition round2 :: "real \<Rightarrow> real" where
  "round2 x = of_int (round_half_even (x * 100)) / 100"

text \<open>\<^verbatim>\<open>str(n)\<close> for a natural number, as the f-strings of the id lists need it.\<close>

definition digit :: "nat \<Rightarrow> char" where
  "digit n = ''0123456789'' ! n"

function str_nat :: "nat \<Rightarrow> string" where
  "str_nat n = (if n < 10 then [digit n] else str_nat (n div 10) @ [digit (n mod 10)])"
  by pat_completeness auto

termination
  by (relation "measure (\<lambda>n. n)") simp_all

text \<open>\<^verbatim>\<open>np.linalg.norm(a - b)\<close> for two points of the plane.\<close>

fun euclid :: "real \<times> real \<Rightarrow> real \<times> real \<Rightarrow> real" where
  "euclid (x1, y1) (x2, y2) = sqrt ((x1 - x2)\<^sup>2 + (y1 - y2)\<^sup>2)"

text \<open>\<^verbatim>\<open>np.random.uniform(lo, hi, size=(n, 2))\<close>: the rows are filled in order.\<close>

fun uniform_rows :: "('g, 'h) rng \<Rightarrow> real \<Rightarrow> real \<Rightarrow> nat \<Rightarrow> 'h \<Rightarrow> (real \<times> real) list \<times> 'h" where
  "uniform_rows R lo hi 0 h = ([], h)"
| "uniform_rows R lo hi (Suc n) h =
     (case np_uniform R lo hi h of (a, h1) \<Rightarrow>
      case np_uniform R lo hi h1 of (b, h2) \<Rightarrow>
      case uniform_rows R lo hi n h2 of (rest, h3) \<Rightarrow> ((a, b) # rest, h3))"

text \<open>\<^verbatim>\<open>population = {h: int(np.random.randint(50, 500)) for h in households}\<close>\<close>

fun draw_population :: "('g, 'h) rng \<Rightarrow> string list \<Rightarrow> (string \<rightharpoonup> int) \<Rightarrow> 'h
    \<Rightarrow> (string \<rightharpoonup> int) \<times> 'h" where
  "draw_population R [] pop h = (pop, h)"
| "draw_population R (hh # hs) pop h =
     (case np_randint R 50 500 h of (v, h1) \<Rightarrow> draw_population R hs (pop(hh \<mapsto> v)) h1)"

text \<open>The inner loop of the travel distances, for household number \<open>i\<close>, from site
  number \<open>j\<close> on:
  \<^verbatim>\<open>dist = np.linalg.norm(household_coords[i] - hospital_coords[j])\<close>,
  \<^verbatim>\<open>travel_distances[h][hosp] = round(float(dist + np.random.uniform(-10, 10)), 2)\<close>.\<close>

fun distance_row_loop :: "('g, 'h) rng \<Rightarrow> (real \<times> real) list \<Rightarrow> (real \<times> real) list \<Rightarrow> nat \<Rightarrow> nat
    \<Rightarrow> string list \<Rightarrow> (string \<rightharpoonup> real) \<Rightarrow> 'h \<Rightarrow> error + (string \<rightharpoonup> real) \<times> 'h" where
  "distance_row_loop R hc sc i j [] row h = Inr (row, h)"
| "distance_row_loop R hc sc i j (hosp # hosps) row h =
     (if i < length hc \<and> j < length sc then
        (case np_uniform R (- 10) 10 h of
           (u, h1) \<Rightarrow>
             distance_row_loop R hc sc i (Suc j) hosps
               (row(hosp \<mapsto> round2 (euclid (hc ! i) (sc ! j) + u))) h1)
      else Inl IndexError)"

text \<open>The outer loop: \<^verbatim>\<open>travel_distances[h] = {}\<close>, then the inner loop.\<close>

fun distance_loop :: "('g, 'h) rng \<Rightarrow> (real \<times> real) list \<Rightarrow> (real \<times> real) list \<Rightarrow> nat
    \<Rightarrow> string list \<Rightarrow> string list \<Rightarrow> (string \<rightharpoonup> (string \<rightharpoonup> real)) \<Rightarrow> 'h
    \<Rightarrow> error + (string \<rightharpoonup> (string \<rightharpoonup> real)) \<times> 'h" where
  "distance_loop R hc sc i [] all td h = Inr (td, h)"
| "distance_loop R hc sc i (hh # hs) all td h =
     (case distance_row_loop R hc sc i 0 all Map.empty h of
        Inl e \<Rightarrow> Inl e
      | Inr (row, h1) \<Rightarrow> distance_loop R hc sc (Suc i) hs all (td(hh \<mapsto> row)) h1)"

text \<open>The indicators:
  \<^verbatim>\<open>distance_indicators[h][hosp] = int(travel_distances[h][hosp] <= S)\<close>.\<close>

fun indicator_row_loop :: "(string \<rightharpoonup> (string \<rightharpoonup> real)) \<Rightarrow> real \<Rightarrow> string \<Rightarrow> string list
    \<Rightarrow> (string \<rightharpoonup> int) \<Rightarrow> error + (string \<rightharpoonup> int)" where
  "indicator_row_loop td S hh [] row = Inr row"
| "indicator_row_loop td S hh (hosp # hosps) row =
     (case getitem td hh of
        Inl e \<Rightarrow> Inl e
      | Inr drow \<Rightarrow>
          (case getitem drow hosp of
             Inl e \<Rightarrow> Inl e
           | Inr dv \<Rightarrow>
               indicator_row_loop td S hh hosps (row(hosp \<mapsto> (if dv \<le> S then 1 else 0)))))"

fun indicator_loop :: "(string \<rightharpoonup> (string \<rightharpoonup> real)) \<Rightarrow> real \<Rightarrow> string list \<Rightarrow> string list
    \<Rightarrow> (string \<rightharpoonup> (string \<rightharpoonup> int)) \<Rightarrow> error + (string \<rightharpoonup> (string \<rightharpoonup> int))" where
  "indicator_loop td S [] all di = Inr di"
| "indicator_loop td S (hh # hs) all di =
     (case indicator_row_loop td S hh all Map.empty of
        Inl e \<Rightarrow> Inl e
      | Inr row \<Rightarrow> indicator_loop td S hs all (di(hh \<mapsto> row)))"

text \<open>
  \<^verbatim>\<open>generate_data\<close> with its three size constants as parameters: \<open>n\<close> households,
  \<open>m\<close> existing sites, \<open>k\<close> candidate sites. The last argument is the state of the two
  global generators before the call; the result is the instance with the state after
  it. \<^verbatim>\<open>random.randint(5, k)\<close> raises \<^verbatim>\<open>ValueError\<close> when \<open>k < 5\<close>.
\<close>

definition generate_data_sized :: "('g, 'h) rng \<Rightarrow> nat \<Rightarrow> nat \<Rightarrow> nat \<Rightarrow> int \<Rightarrow> 'g \<times> 'h
    \<Rightarrow> error + data \<times> ('g \<times> 'h)" where
  "generate_data_sized R n m k seed st =
     (let g0 = random_seed R seed;
          h0 = np_seed R seed
      in case random_uniform R 8 15 g0 of
        (u, g1) \<Rightarrow>
          let S = round2 u
          in if int k < 5 then Inl ValueError
             else
               (case random_randint R 5 (int k) g1 of
                  (r, g2) \<Rightarrow>
                    let p = min r (int k);
                        hs = map (\<lambda>i. ''H'' @ str_nat (i + 1)) [0..<n];
                        existing = map (\<lambda>i. ''EJ'' @ str_nat (i + 1)) [0..<m];
                        candidates = map (\<lambda>i. ''CJ'' @ str_nat (i + 1)) [0..<k];
                        all = existing @ candidates
                    in case uniform_rows R 0 100 n h0 of
                      (household_coords, h1) \<Rightarrow>
                    case uniform_rows R 0 100 (m + k) h1 of
                      (hospital_coords, h2) \<Rightarrow>
                    case draw_population R hs Map.empty h2 of
                      (pop, h3) \<Rightarrow>
                    case distance_loop R household_coords hospital_coords 0 hs all Map.empty h3 of
                      Inl e \<Rightarrow> Inl e
                    | Inr (td, h4) \<Rightarrow>
                    case indicator_loop td S hs all Map.empty of
                      Inl e \<Rightarrow> Inl e
                    | Inr di \<Rightarrow>
                        Inr (\<lparr>households = hs,
                              existing_hospitals = existing,
                              candidate_hospitals = candidates,
                              all_hospitals = all,
                              population = pop,
                              travel_distances = td,
                              distance_indicators = di,
                              max_travel_distance = S,
                              max_new_hospitals = p\<rparr>, (g2, h4))))"

text \<open>\<^verbatim>\<open>generate_data(seed)\<close> as the source has it: 20000 households, 15 existing and
  100 candidate sites.\<close>

definition generate_data :: "('g, 'h) rng \<Rightarrow> int \<Rightarrow> 'g \<times> 'h \<Rightarrow> error + data \<times> ('g \<times> 'h)" where
  "generate_data R seed st = generate_data_sized R 20000 15 100 seed st"

text \<open>The stored distance of a pair, and a generator whose every draw is the lower end
  of its range.\<close>

definition travel_distance :: "data \<Rightarrow> string \<Rightarrow> string \<Rightarrow> real option" where
  "travel_distance d i j = (case travel_distances d i of None \<Rightarrow> None | Some row \<Rightarrow> row j)"

definition low_rng :: "(unit, unit) rng" where
  "low_rng =
     \<lparr>random_seed = (\<lambda>s. ()),
      random_uniform = (\<lambda>lo hi g. (lo, g)),
      random_randint = (\<lambda>a b g. (a, g)),
      np_seed = (\<lambda>s. ()),
      np_uniform = (\<lambda>lo hi h. (lo, h)),
      np_randint = (\<lambda>a b h. (a, h))\<rparr>"

text \<open>A stored distance is \<open>perturbed\<close> when it is the rounded sum of the Euclidean
  distance of two drawn positions and a noise draw.\<close>

definition perturbed :: "('g, 'h) rng \<Rightarrow> (real \<times> real) set \<Rightarrow> (real \<times> real) set \<Rightarrow> real \<Rightarrow> bool" where
  "perturbed R A B v =
     (\<exists>a\<in>A. \<exists>b\<in>B. \<exists>h. v = round2 (euclid a b + fst (np_uniform R (- 10) 10 h)))"

section \<open>The solve orchestrator\<close>

text \<open>
  What \<^verbatim>\<open>main\<close> reads from the model after \<^verbatim>\<open>model.optimize()\<close>: the status code, the
  objective value (reading it raises when the engine has no solution) and the node
  count. \<^verbatim>\<open>main\<close> returns nothing; its result is what it prints. Each constructor of
  \<open>out_line\<close> is one of its \<^verbatim>\<open>print\<close> statements, with the printed values unformatted.
\<close>

record engine_result =
  Status :: int
  ObjVal :: "real option"
  NodeCount :: real

datatype out_line =
  Status_optimal
  | Status_code int
  | Objective real
  | Solve_time real
  | Nodes_explored int

text \<open>\<^verbatim>\<open>int(x)\<close> on a float truncates towards zero.\<close>

definition py_int :: "real \<Rightarrow> int" where
  "py_int x = (if 0 \<le> x then \<lfloor>x\<rfloor> else \<lceil>x\<rceil>)"

text \<open>The part of \<^verbatim>\<open>main\<close> after the solve, the same in \<^verbatim>\<open>run.py\<close> and \<^verbatim>\<open>solve.py\<close>:
  \<^verbatim>\<open>if model.Status == 2: ... else: print(f"Status: {model.Status}") ...\<close>\<close>

definition report_results :: "engine_result \<Rightarrow> real \<Rightarrow> error + out_line list" where
  "report_results model solve_time =
     (if Status model = 2 then
        (case ObjVal model of
           None \<Rightarrow> Inl AttributeError
         | Some obj \<Rightarrow>
             Inr [Status_optimal, Objective obj, Solve_time solve_time,
                  Nodes_explored (py_int (NodeCount model))])
      else Inr [Status_code (Status model), Solve_time solve_time])"

text \<open>The four-way taxonomy of solve results that the specification names: optimal,
  feasible but stopped by a time or gap limit, infeasible, other or error. The source has
  no such type; it is here to state what a four-way report would be.\<close>

datatype solve_status = Optimal | Limited_feasible | Infeasible | Other_error

section \<open>Definitions used in the statements and proofs\<close>

text \<open>
  The builders append constraints to the model one by one. \<open>add_all\<close> appends a list,
  \<open>rows\<close> is the list of constraints that a loop emits, and \<open>x_alloc\<close>, \<open>y_alloc\<close>
  are the dictionaries of variable indices that the two variable loops build, given the
  number of variables created before.
\<close>

definition add_all :: "model \<Rightarrow> constr list \<Rightarrow> model" where
  "add_all M cs = M\<lparr>m_constrs := m_constrs M @ cs\<rparr>"

definition mk_constr :: "linexpr \<Rightarrow> sense \<Rightarrow> linexpr \<Rightarrow> string \<Rightarrow> bool \<Rightarrow> constr" where
  "mk_constr l s r n lz = \<lparr>c_lhs = l, c_sense = s, c_rhs = r, c_name = n, c_lazy = lz\<rparr>"

definition rows :: "('a \<Rightarrow> error + constr list) \<Rightarrow> 'a list \<Rightarrow> error + constr list" where
  "rows g xs = (case collect g xs of Inl e \<Rightarrow> Inl e | Inr css \<Rightarrow> Inr (concat css))"

fun x_alloc :: "string list \<Rightarrow> nat \<Rightarrow> (string \<rightharpoonup> nat) \<Rightarrow> (string \<rightharpoonup> nat)" where
  "x_alloc [] n x = x"
| "x_alloc (j # js) n x = x_alloc js (Suc n) (x(j \<mapsto> n))"

fun y_alloc_row :: "string \<Rightarrow> string list \<Rightarrow> nat \<Rightarrow> (string \<times> string \<rightharpoonup> nat) \<Rightarrow> (string \<times> string \<rightharpoonup> nat)" where
  "y_alloc_row i [] n y = y"
| "y_alloc_row i (j # js) n y = y_alloc_row i js (Suc n) (y((i, j) \<mapsto> n))"

fun y_alloc :: "string list \<Rightarrow> string list \<Rightarrow> nat \<Rightarrow> (string \<times> string \<rightharpoonup> nat) \<Rightarrow> (string \<times> string \<rightharpoonup> nat)" where
  "y_alloc [] js n y = y"
| "y_alloc (i # is) js n y = y_alloc is js (n + length js) (y_alloc_row i js n y)"

text \<open>The dictionaries \<^verbatim>\<open>x\<close> and \<^verbatim>\<open>y\<close> of both builders: they depend on the model only
  through the number of variables created before, which is 0 for \<^verbatim>\<open>x\<close>.\<close>

definition x_dict :: "data \<Rightarrow> (string \<rightharpoonup> nat)" where
  "x_dict d = snd (add_x_vars (all_hospitals d) (Model []) Map.empty)"

definition y_dict :: "data \<Rightarrow> (string \<times> string \<rightharpoonup> nat)" where
  "y_dict d = snd (add_y_vars (households d) (all_hospitals d)
                     (fst (add_x_vars (all_hospitals d) (Model []) Map.empty)) Map.empty)"


definition bounded_map :: "nat \<Rightarrow> nat \<Rightarrow> ('k \<rightharpoonup> nat) \<Rightarrow> bool" where
  "bounded_map lo n x = (\<forall>j v. x j = Some v \<longrightarrow> lo \<le> v \<and> v < n)"

definition existing_row :: "(string \<rightharpoonup> nat) \<Rightarrow> string \<Rightarrow> error + constr list" where
  "existing_row x j =
     (case getitem x j of Inl e \<Rightarrow> Inl e
      | Inr v \<Rightarrow> Inr [mk_constr (LinExpr [(1, v)] 0) Equal (LinExpr [] 1)
                        (''existing_hospital_'' @ j) False])"

definition budget_rows :: "(string \<rightharpoonup> nat) \<Rightarrow> string list \<Rightarrow> int \<Rightarrow> error + constr list" where
  "budget_rows x candidates p =
     (case collect (\<lambda>j. case getitem x j of Inl e \<Rightarrow> Inl e | Inr v \<Rightarrow> Inr (1, v)) candidates of
        Inl e \<Rightarrow> Inl e
      | Inr ts \<Rightarrow> Inr [mk_constr (quicksum ts) LessEqual (LinExpr [] p)
                         ''max_new_hospitals'' False])"

definition linking_row :: "(string \<rightharpoonup> nat) \<Rightarrow> (string \<times> string \<rightharpoonup> nat) \<Rightarrow> string list
    \<Rightarrow> string \<Rightarrow> error + constr list" where
  "linking_row x y hs j =
     (case collect (\<lambda>i. case getitem2 y i j of Inl e \<Rightarrow> Inl e | Inr v \<Rightarrow> Inr (1, v)) hs of
        Inl e \<Rightarrow> Inl e
      | Inr ts \<Rightarrow> (case getitem x j of Inl e \<Rightarrow> Inl e
          | Inr v \<Rightarrow> Inr [mk_constr (quicksum ts) LessEqual (LinExpr [(int (length hs), v)] 0)
                            (''facility_open_'' @ j) False]))"

definition single_row :: "(string \<times> string \<rightharpoonup> nat) \<Rightarrow> string list \<Rightarrow> string
    \<Rightarrow> error + constr list" where
  "single_row y js i =
     (case collect (\<lambda>j. case getitem2 y i j of Inl e \<Rightarrow> Inl e | Inr v \<Rightarrow> Inr (1, v)) js of
        Inl e \<Rightarrow> Inl e
      | Inr ts \<Rightarrow> Inr [mk_constr (quicksum ts) LessEqual (LinExpr [] 1)
                         (''single_assignment_'' @ i) False])"

definition distance_row :: "(string \<rightharpoonup> (string \<rightharpoonup> int)) \<Rightarrow> (string \<times> string \<rightharpoonup> nat)
    \<Rightarrow> string \<Rightarrow> string \<Rightarrow> error + constr list" where
  "distance_row ind y i j =
     (case getitem2 y i j of Inl e \<Rightarrow> Inl e
      | Inr v \<Rightarrow> (case getitem ind i of Inl e \<Rightarrow> Inl e
          | Inr row \<Rightarrow> (case getitem row j of Inl e \<Rightarrow> Inl e
              | Inr a \<Rightarrow> Inr [mk_constr (LinExpr [(1, v)] 0) LessEqual (LinExpr [] a)
                                (''distance_limit_'' @ i @ ''_'' @ j) False])))"

definition lazy_row :: "(string \<rightharpoonup> (string \<rightharpoonup> int)) \<Rightarrow> (string \<times> string \<rightharpoonup> nat)
    \<Rightarrow> string \<Rightarrow> string \<Rightarrow> error + constr list" where
  "lazy_row ind y i j =
     (case getitem ind i of Inl e \<Rightarrow> Inl e
      | Inr row \<Rightarrow> (case getitem row j of Inl e \<Rightarrow> Inl e
          | Inr a \<Rightarrow>
              if a = 0 then
                (case getitem2 y i j of Inl e \<Rightarrow> Inl e
                 | Inr v \<Rightarrow> Inr [mk_constr (LinExpr [(1, v)] 0) LessEqual (LinExpr [] 0)
                                   (''distance_limit_'' @ i @ ''_'' @ j) True])
              else Inr []))"

definition var_decls :: "data \<Rightarrow> (vtype \<times> string) list" where
  "var_decls d =
     map (\<lambda>j. (BINARY, ''x_'' @ j)) (all_hospitals d) @
     concat (map (\<lambda>i. map (\<lambda>j. (BINARY, ''y_'' @ i @ ''_'' @ j)) (all_hospitals d))
               (households d))"

definition common_rows :: "data \<Rightarrow> error + ((int \<times> nat) list \<times> constr list)" where
  "common_rows d =
     (case objective_terms (population d) (y_dict d) (households d) (all_hospitals d) of
        Inl e \<Rightarrow> Inl e
      | Inr ts \<Rightarrow>
     (case rows (existing_row (x_dict d)) (existing_hospitals d) of
        Inl e \<Rightarrow> Inl e
      | Inr c1 \<Rightarrow>
     (case budget_rows (x_dict d) (candidate_hospitals d) (max_new_hospitals d) of
        Inl e \<Rightarrow> Inl e
      | Inr c2 \<Rightarrow>
     (case rows (linking_row (x_dict d) (y_dict d) (households d)) (all_hospitals d) of
        Inl e \<Rightarrow> Inl e
      | Inr c3 \<Rightarrow>
     (case rows (single_row (y_dict d) (all_hospitals d)) (households d) of
        Inl e \<Rightarrow> Inl e
      | Inr c4 \<Rightarrow> Inr (ts, c1 @ c2 @ c3 @ c4))))))"

definition distance_rows :: "bool \<Rightarrow> data \<Rightarrow> error + constr list" where
  "distance_rows lz d =
     rows (\<lambda>i. rows ((if lz then lazy_row else distance_row)
                          (distance_indicators d) (y_dict d) i) (all_hospitals d))
       (households d)"

definition formulation :: "string \<Rightarrow> bool \<Rightarrow> data \<Rightarrow> error + model" where
  "formulation nm lz d =
     (case common_rows d of
        Inl e \<Rightarrow> Inl e
      | Inr (ts, cs) \<Rightarrow>
     (case distance_rows lz d of
        Inl e \<Rightarrow> Inl e
      | Inr c5 \<Rightarrow>
        Inr \<lparr>m_name = nm, m_vars = var_decls d, m_objective = quicksum ts,
             m_sense = MAXIMIZE, m_constrs = cs @ c5\<rparr>))"

definition binary_vars :: "data \<Rightarrow> (nat \<Rightarrow> int) \<Rightarrow> bool" where
  "binary_vars d sol = (\<forall>v < length (var_decls d). sol v = 0 \<or> sol v = 1)"

definition indicator :: "data \<Rightarrow> string \<Rightarrow> string \<Rightarrow> int option" where
  "indicator d i j = (case distance_indicators d i of None \<Rightarrow> None | Some row \<Rightarrow> row j)"

definition indicators_binary :: "data \<Rightarrow> bool" where
  "indicators_binary d =
     (\<forall>i\<in>set (households d). \<forall>j\<in>set (all_hospitals d). \<forall>a.
        indicator d i j = Some a \<longrightarrow> a = 0 \<or> a = 1)"



definition sat_existing :: "data \<Rightarrow> (nat \<Rightarrow> int) \<Rightarrow> bool" where
  "sat_existing d sol = (\<forall>j\<in>set (existing_hospitals d). sol (the (x_dict d j)) = 1)"

definition sat_budget :: "data \<Rightarrow> (nat \<Rightarrow> int) \<Rightarrow> bool" where
  "sat_budget d sol =
     (sum_list (map (\<lambda>j. sol (the (x_dict d j))) (candidate_hospitals d)) \<le> max_new_hospitals d)"

definition sat_linking :: "data \<Rightarrow> (nat \<Rightarrow> int) \<Rightarrow> bool" where
  "sat_linking d sol =
     (\<forall>j\<in>set (all_hospitals d).
        sum_list (map (\<lambda>i. sol (the (y_dict d (i, j)))) (households d))
          \<le> int (length (households d)) * sol (the (x_dict d j)))"

definition sat_single :: "data \<Rightarrow> (nat \<Rightarrow> int) \<Rightarrow> bool" where
  "sat_single d sol =
     (\<forall>i\<in>set (households d).
        sum_list (map (\<lambda>j. sol (the (y_dict d (i, j)))) (all_hospitals d)) \<le> 1)"

definition sat_distance :: "data \<Rightarrow> (nat \<Rightarrow> int) \<Rightarrow> bool" where
  "sat_distance d sol =
     (\<forall>i\<in>set (households d). \<forall>j\<in>set (all_hospitals d).
        sol (the (y_dict d (i, j))) \<le> the (indicator d i j))"

definition sat_distance_lazy :: "data \<Rightarrow> (nat \<Rightarrow> int) \<Rightarrow> bool" where
  "sat_distance_lazy d sol =
     (\<forall>i\<in>set (households d). \<forall>j\<in>set (all_hospitals d).
        indicator d i j = Some 0 \<longrightarrow> sol (the (y_dict d (i, j))) \<le> 0)"

definition example_data :: data where
  "example_data =
     \<lparr>households = [''H1'', ''H2''],
      existing_hospitals = [''EJ1''],
      candidate_hospitals = [''CJ1''],
      all_hospitals = [''EJ1'', ''CJ1''],
      population = [''H1'' \<mapsto> 120, ''H2'' \<mapsto> 75],
      travel_distances = [''H1'' \<mapsto> [''EJ1'' \<mapsto> 3.5, ''CJ1'' \<mapsto> 20],
                          ''H2'' \<mapsto> [''EJ1'' \<mapsto> 12.25, ''CJ1'' \<mapsto> 4]],
      distance_indicators = [''H1'' \<mapsto> [''EJ1'' \<mapsto> 1, ''CJ1'' \<mapsto> 0],
                             ''H2'' \<mapsto> [''EJ1'' \<mapsto> 0, ''CJ1'' \<mapsto> 1]],
      max_travel_distance = 10,
      max_new_hospitals = 1\<rparr>"

definition example_solution :: "nat \<Rightarrow> int" where
  "example_solution = (\<lambda>v. if v = 0 \<or> v = 1 \<or> v = 2 \<or> v = 5 then 1 else 0)"

definition linking_constr :: "data \<Rightarrow> string \<Rightarrow> nat \<Rightarrow> constr" where
  "linking_constr d j xv =
     \<lparr>c_lhs = quicksum (map (\<lambda>i. (1, the (y_dict d (i, j)))) (households d)),
      c_sense = LessEqual,
      c_rhs = LinExpr [(int (length (households d)), xv)] 0,
      c_name = ''facility_open_'' @ j,
      c_lazy = False\<rparr>"

definition example_no_distances :: data where
  "example_no_distances = example_data\<lparr>travel_distances := Map.empty, max_travel_distance := 0\<rparr>"


text \<open>The values that \<^verbatim>\<open>generate_data\<close> binds on its way, as functions of the seed:
  the id lists, the positions, the maximum distance and the draw for the budget.\<close>

definition household_ids :: "nat \<Rightarrow> string list" where
  "household_ids n = map (\<lambda>i. ''H'' @ str_nat (i + 1)) [0..<n]"

definition site_ids :: "nat \<Rightarrow> nat \<Rightarrow> string list" where
  "site_ids m k =
     map (\<lambda>i. ''EJ'' @ str_nat (i + 1)) [0..<m] @ map (\<lambda>i. ''CJ'' @ str_nat (i + 1)) [0..<k]"

definition household_positions :: "('g, 'h) rng \<Rightarrow> nat \<Rightarrow> int \<Rightarrow> (real \<times> real) list" where
  "household_positions R n seed = fst (uniform_rows R 0 100 n (np_seed R seed))"

definition site_positions :: "('g, 'h) rng \<Rightarrow> nat \<Rightarrow> nat \<Rightarrow> nat \<Rightarrow> int \<Rightarrow> (real \<times> real) list" where
  "site_positions R n m k seed =
     fst (uniform_rows R 0 100 (m + k) (snd (uniform_rows R 0 100 n (np_seed R seed))))"

definition drawn_max_distance :: "('g, 'h) rng \<Rightarrow> int \<Rightarrow> real" where
  "drawn_max_distance R seed = round2 (fst (random_uniform R 8 15 (random_seed R seed)))"

definition drawn_budget :: "('g, 'h) rng \<Rightarrow> nat \<Rightarrow> int \<Rightarrow> int" where
  "drawn_budget R k seed =
     fst (random_randint R 5 (int k) (snd (random_uniform R 8 15 (random_seed R seed))))"

definition generated :: "('g, 'h) rng \<Rightarrow> nat \<Rightarrow> nat \<Rightarrow> nat \<Rightarrow> int \<Rightarrow> data \<Rightarrow> bool" where
  "generated R n m k seed inst =
     (households inst = household_ids n \<and>
      all_hospitals inst = site_ids m k \<and>
      max_travel_distance inst = drawn_max_distance R seed \<and>
      max_new_hospitals inst = min (drawn_budget R k seed) (int k) \<and>
      dom (travel_distances inst) = set (household_ids n) \<and>
      (\<forall>h row. travel_distances inst h = Some row \<longrightarrow>
         dom row = set (site_ids m k) \<and>
         (\<forall>s v. row s = Some v \<longrightarrow>
            perturbed R (set (household_positions R n seed)) (set (site_positions R n m k seed)) v)) \<and>
      distance_indicators inst =
        (\<lambda>h. if h \<in> set (household_ids n)
              then Some (\<lambda>s. if s \<in> set (site_ids m k)
                              then Some (if the (the (travel_distances inst h) s)
                                            \<le> drawn_max_distance R seed then 1 else 0)
                              else None)
              else None) \<and>
      indicator_loop (travel_distances inst) (max_travel_distance inst) (households inst)
        (all_hospitals inst) Map.empty = Inr (distance_indicators inst))"

definition low_instance :: data where
  "low_instance = fst (projr (generate_data low_rng 42 ((), ())))"

section \<open>Properties of the formulation builders\<close>

subsection \<open>Loops\<close>

lemma getitem_Inr_iff: "getitem m k = Inr v \<longleftrightarrow> m k = Some v"
  by (simp add: getitem_def split: option.splits)

lemma getitem_Inl_iff: "getitem m k = Inl e \<longleftrightarrow> m k = None \<and> e = KeyError_str k"
  by (auto simp add: getitem_def split: option.splits)

lemma getitem2_Inr_iff: "getitem2 m i j = Inr v \<longleftrightarrow> m (i, j) = Some v"
  by (simp add: getitem2_def split: option.splits)

lemma getitem2_Inl_iff: "getitem2 m i j = Inl e \<longleftrightarrow> m (i, j) = None \<and> e = KeyError_pair i j"
  by (auto simp add: getitem2_def split: option.splits)

lemma collect_Inr_iff:
  "collect f xs = Inr ys \<longleftrightarrow> (\<forall>a\<in>set xs. \<exists>b. f a = Inr b) \<and> ys = map (\<lambda>a. projr (f a)) xs"
proof (induction xs arbitrary: ys)
  case Nil
  show ?case by auto
next
  case (Cons a as)
  show ?case
  proof (cases "f a")
    case (Inl e)
    then show ?thesis by auto
  next
    case (Inr b)
    then show ?thesis
      using Cons.IH by (cases "collect f as") auto
  qed
qed

lemma collect_Inl_member:
  "collect f xs = Inl e \<Longrightarrow> \<exists>a\<in>set xs. f a = Inl e"
  by (induction xs) (auto split: sum.splits)

lemma collect_cong_err:
  assumes "\<And>a e. a \<in> set xs \<Longrightarrow> f a = Inl e \<longleftrightarrow> g a = Inl e"
  shows "collect f xs = Inl e \<longleftrightarrow> collect g xs = Inl e"
  using assms
proof (induction xs)
  case Nil
  show ?case by simp
next
  case (Cons a as)
  have t: "collect f as = Inl e \<longleftrightarrow> collect g as = Inl e"
    using Cons by simp
  have h: "\<And>e. f a = Inl e \<longleftrightarrow> g a = Inl e"
    using Cons.prems by simp
  show ?case
  proof (cases "f a")
    case (Inl e')
    then have "g a = Inl e'" using h by simp
    with Inl show ?thesis by simp
  next
    case (Inr b)
    then obtain b' where "g a = Inr b'"
      using h by (cases "g a") auto
    with Inr t show ?thesis
      by (cases "collect f as"; cases "collect g as") auto
  qed
qed

lemma add_all_Nil: "add_all M [] = M"
  by (simp add: add_all_def)

lemma add_all_add_all: "add_all (add_all M as) bs = add_all M (as @ bs)"
  by (simp add: add_all_def)

lemma addConstr_add_all: "addConstr M l s r n lz = add_all M [mk_constr l s r n lz]"
  by (simp add: addConstr_def add_all_def mk_constr_def)

lemma for_each_rows:
  assumes "\<And>a M. body a M = (case g a of Inl e \<Rightarrow> Inl e | Inr cs \<Rightarrow> Inr (add_all M cs))"
  shows "for_each body xs M = (case rows g xs of Inl e \<Rightarrow> Inl e | Inr cs \<Rightarrow> Inr (add_all M cs))"
proof (induction xs arbitrary: M)
  case Nil
  show ?case by (simp add: rows_def add_all_Nil)
next
  case (Cons a as)
  show ?case
  proof (cases "g a")
    case (Inl e)
    then show ?thesis by (simp add: assms rows_def)
  next
    case (Inr cs)
    then show ?thesis
      using Cons.IH [of "add_all M cs"]
      by (simp add: assms rows_def add_all_add_all split: sum.splits)
  qed
qed

lemma rows_Inr_iff:
  "rows g xs = Inr cs \<longleftrightarrow>
     (\<forall>a\<in>set xs. \<exists>c. g a = Inr c) \<and> cs = concat (map (\<lambda>a. projr (g a)) xs)"
proof (cases "collect g xs")
  case (Inl e)
  then obtain a where "a \<in> set xs" "g a = Inl e"
    using collect_Inl_member by fastforce
  then have "\<not> (\<forall>a\<in>set xs. \<exists>c. g a = Inr c)" by force
  with Inl show ?thesis by (simp add: rows_def)
next
  case (Inr css)
  have "(\<forall>a\<in>set xs. \<exists>b. g a = Inr b) \<and> css = map (\<lambda>a. projr (g a)) xs"
    using Inr collect_Inr_iff [of g xs css] by blast
  then show ?thesis
    using Inr by (auto simp: rows_def)
qed

lemma rows_Inl_member: "rows g xs = Inl e \<Longrightarrow> \<exists>a\<in>set xs. g a = Inl e"
  by (auto simp: rows_def split: sum.splits dest: collect_Inl_member)

lemma rows_list_all:
  assumes "rows g xs = Inr cs"
  shows "list_all P cs \<longleftrightarrow> (\<forall>a\<in>set xs. list_all P (projr (g a)))"
  using assms by (auto simp: rows_Inr_iff list_all_iff)

lemma rows_cong_err:
  assumes "\<And>a e. a \<in> set xs \<Longrightarrow> f a = Inl e \<longleftrightarrow> g a = Inl e"
  shows "rows f xs = Inl e \<longleftrightarrow> rows g xs = Inl e"
  using collect_cong_err [of xs f g e] assms
  by (auto simp: rows_def split: sum.splits)

subsection \<open>Variables\<close>

lemma add_x_vars_eq:
  "add_x_vars js M x =
     (M\<lparr>m_vars := m_vars M @ map (\<lambda>j. (BINARY, ''x_'' @ j)) js\<rparr>,
      x_alloc js (length (m_vars M)) x)"
  by (induction js arbitrary: M x) (simp_all add: addVar_def)

lemma add_y_row_eq:
  "add_y_row i js M y =
     (M\<lparr>m_vars := m_vars M @ map (\<lambda>j. (BINARY, ''y_'' @ i @ ''_'' @ j)) js\<rparr>,
      y_alloc_row i js (length (m_vars M)) y)"
  by (induction js arbitrary: M y) (simp_all add: addVar_def)

lemma add_y_vars_eq:
  "add_y_vars is js M y =
     (M\<lparr>m_vars := m_vars M @
          concat (map (\<lambda>i. map (\<lambda>j. (BINARY, ''y_'' @ i @ ''_'' @ j)) js) is)\<rparr>,
      y_alloc is js (length (m_vars M)) y)"
  by (induction "is" arbitrary: M y) (simp_all add: add_y_row_eq)

lemma x_dict_eq: "x_dict d = x_alloc (all_hospitals d) 0 Map.empty"
  by (simp add: x_dict_def add_x_vars_eq Model_def)

lemma y_dict_eq:
  "y_dict d = y_alloc (households d) (all_hospitals d) (length (all_hospitals d)) Map.empty"
  by (simp add: y_dict_def add_x_vars_eq add_y_vars_eq Model_def)


lemma y_alloc_row_dom: "dom (y_alloc_row i js n y) = dom y \<union> {i} \<times> set js"
  by (induction js arbitrary: n y) auto

lemma y_alloc_dom: "dom (y_alloc is js n y) = dom y \<union> set is \<times> set js"
  by (induction "is" arbitrary: n y) (auto simp: y_alloc_row_dom)

lemma bounded_map_empty: "bounded_map lo n Map.empty"
  by (simp add: bounded_map_def)


lemma bounded_map_upd:
  "bounded_map lo n x \<Longrightarrow> lo \<le> n \<Longrightarrow> bounded_map lo (Suc n) (x(k \<mapsto> n))"
  unfolding bounded_map_def by (auto simp: less_Suc_eq)




lemma y_alloc_row_bounded:
  "bounded_map lo n y \<Longrightarrow> lo \<le> n \<Longrightarrow> bounded_map lo (n + length js) (y_alloc_row i js n y)"
proof (induction js arbitrary: n y)
  case Nil
  then show ?case by simp
next
  case (Cons a js)
  have b: "bounded_map lo (Suc n) (y((i, a) \<mapsto> n))"
    using Cons.prems by (rule bounded_map_upd)
  have l: "lo \<le> Suc n"
    using Cons.prems(2) by simp
  from Cons.IH [OF b l] show ?case by (simp del: fun_upd_apply)
qed

lemma y_alloc_bounded:
  "bounded_map lo n y \<Longrightarrow> lo \<le> n
     \<Longrightarrow> bounded_map lo (n + length is * length js) (y_alloc is js n y)"
proof (induction "is" arbitrary: n y)
  case Nil
  then show ?case by simp
next
  case (Cons a "is")
  have b: "bounded_map lo (n + length js) (y_alloc_row a js n y)"
    using Cons.prems by (rule y_alloc_row_bounded)
  have l: "lo \<le> n + length js"
    using Cons.prems(2) by simp
  from Cons.IH [OF b l] show ?case by (simp add: add.assoc)
qed

lemma add_existing_constrs_eq:
  "add_existing_constrs x existing M =
     (case rows (existing_row x) existing of Inl e \<Rightarrow> Inl e | Inr cs \<Rightarrow> Inr (add_all M cs))"
  unfolding add_existing_constrs_def
  by (rule for_each_rows) (simp add: existing_row_def addConstr_add_all split: sum.splits)

lemma add_budget_constr_eq:
  "add_budget_constr x candidates p M =
     (case budget_rows x candidates p of Inl e \<Rightarrow> Inl e | Inr cs \<Rightarrow> Inr (add_all M cs))"
  by (simp add: add_budget_constr_def budget_rows_def addConstr_add_all split: sum.splits)

lemma add_linking_constrs_eq:
  "add_linking_constrs x y hs js M =
     (case rows (linking_row x y hs) js of Inl e \<Rightarrow> Inl e | Inr cs \<Rightarrow> Inr (add_all M cs))"
  unfolding add_linking_constrs_def
  by (rule for_each_rows) (simp add: linking_row_def addConstr_add_all split: sum.splits)

lemma add_single_constrs_eq:
  "add_single_constrs y hs js M =
     (case rows (single_row y js) hs of Inl e \<Rightarrow> Inl e | Inr cs \<Rightarrow> Inr (add_all M cs))"
  unfolding add_single_constrs_def
  by (rule for_each_rows) (simp add: single_row_def addConstr_add_all split: sum.splits)

lemma add_distance_constrs_eq:
  "add_distance_constrs ind y hs js M =
     (case rows (\<lambda>i. rows (distance_row ind y i) js) hs of
        Inl e \<Rightarrow> Inl e | Inr cs \<Rightarrow> Inr (add_all M cs))"
  unfolding add_distance_constrs_def
proof (rule for_each_rows)
  fix i M
  show "for_each (\<lambda>j M. case getitem2 y i j of Inl e \<Rightarrow> Inl e
         | Inr v \<Rightarrow> (case getitem ind i of Inl e \<Rightarrow> Inl e
             | Inr row \<Rightarrow> (case getitem row j of Inl e \<Rightarrow> Inl e
                 | Inr a \<Rightarrow> Inr (addConstr M (LinExpr [(1, v)] 0) LessEqual (LinExpr [] a)
                                   (''distance_limit_'' @ i @ ''_'' @ j) False)))) js M =
        (case rows (distance_row ind y i) js of Inl e \<Rightarrow> Inl e | Inr cs \<Rightarrow> Inr (add_all M cs))"
    by (rule for_each_rows) (simp add: distance_row_def addConstr_add_all split: sum.splits)
qed

lemma add_distance_constrs_lazy_eq:
  "add_distance_constrs_lazy ind y hs js M =
     (case rows (\<lambda>i. rows (lazy_row ind y i) js) hs of
        Inl e \<Rightarrow> Inl e | Inr cs \<Rightarrow> Inr (add_all M cs))"
  unfolding add_distance_constrs_lazy_def
proof (rule for_each_rows)
  fix i M
  show "for_each (\<lambda>j M. case getitem ind i of Inl e \<Rightarrow> Inl e
         | Inr row \<Rightarrow> (case getitem row j of Inl e \<Rightarrow> Inl e
             | Inr a \<Rightarrow>
                 if a = 0 then
                   (case getitem2 y i j of Inl e \<Rightarrow> Inl e
                    | Inr v \<Rightarrow> Inr (addConstr M (LinExpr [(1, v)] 0) LessEqual (LinExpr [] 0)
                                      (''distance_limit_'' @ i @ ''_'' @ j) True))
                 else Inr M)) js M =
        (case rows (lazy_row ind y i) js of Inl e \<Rightarrow> Inl e | Inr cs \<Rightarrow> Inr (add_all M cs))"
    by (rule for_each_rows)
       (simp add: lazy_row_def addConstr_add_all add_all_Nil split: sum.splits)
qed

lemma x_dict_model: "snd (add_x_vars (all_hospitals d) (Model nm) Map.empty) = x_dict d"
  by (simp add: x_dict_eq add_x_vars_eq Model_def)

lemma y_dict_model:
  "snd (add_y_vars (households d) (all_hospitals d)
          (fst (add_x_vars (all_hospitals d) (Model nm) Map.empty)) Map.empty) = y_dict d"
  by (simp add: y_dict_eq add_x_vars_eq add_y_vars_eq Model_def)

lemma prefix_model:
  "fst (add_y_vars (households d) (all_hospitals d)
          (fst (add_x_vars (all_hospitals d) (Model nm) Map.empty)) Map.empty) =
     \<lparr>m_name = nm, m_vars = var_decls d, m_objective = LinExpr [] 0,
      m_sense = MINIMIZE, m_constrs = []\<rparr>"
  by (simp add: add_x_vars_eq add_y_vars_eq Model_def var_decls_def)

lemma generate_gurobipy_model_eq:
  "generate_gurobipy_model d = formulation ''TimorLeste_Inefficient'' False d"
  unfolding generate_gurobipy_model_def formulation_def common_rows_def distance_rows_def
  by (simp add: split_beta x_dict_model y_dict_model prefix_model
      add_existing_constrs_eq add_budget_constr_eq add_linking_constrs_eq
      add_single_constrs_eq add_distance_constrs_eq setObjective_def add_all_def
      split: sum.splits)

lemma build_model_eq:
  "build_model d = formulation ''TimorLeste_Healthcare'' True d"
  unfolding build_model_def formulation_def common_rows_def distance_rows_def
  by (simp add: split_beta x_dict_model y_dict_model prefix_model
      add_existing_constrs_eq add_budget_constr_eq add_linking_constrs_eq
      add_single_constrs_eq add_distance_constrs_lazy_eq setObjective_def add_all_def
      split: sum.splits)

subsection \<open>Generators of terms\<close>

lemma collect_vars1:
  "collect (\<lambda>a. case getitem x (k a) of Inl e \<Rightarrow> Inl e | Inr v \<Rightarrow> Inr (c a, v)) xs = Inr ts
     \<longleftrightarrow> (\<forall>a\<in>set xs. x (k a) \<noteq> None) \<and> ts = map (\<lambda>a. (c a, the (x (k a)))) xs"
  (is "collect ?f xs = Inr ts \<longleftrightarrow> ?ok \<and> ts = ?r")
proof -
  have 1: "\<And>a. (\<exists>b. ?f a = Inr b) \<longleftrightarrow> x (k a) \<noteq> None"
    by (auto simp: getitem_def split: option.splits)
  have 2: "\<And>a. x (k a) \<noteq> None \<Longrightarrow> projr (?f a) = (c a, the (x (k a)))"
    by (auto simp: getitem_def)
  have "?ok \<Longrightarrow> map (\<lambda>a. projr (?f a)) xs = ?r"
    by (rule map_cong) (simp_all add: 2)
  then show ?thesis
    unfolding collect_Inr_iff 1 by auto
qed

lemma collect_vars1_Inl:
  "collect (\<lambda>a. case getitem x (k a) of Inl e \<Rightarrow> Inl e | Inr v \<Rightarrow> Inr (c a, v)) xs = Inl e
     \<Longrightarrow> \<exists>a\<in>set xs. x (k a) = None"
  by (drule collect_Inl_member) (auto simp: getitem_def split: option.splits)

lemma collect_vars2:
  "collect (\<lambda>a. case getitem2 y (fi a) (fj a) of Inl e \<Rightarrow> Inl e | Inr v \<Rightarrow> Inr (c a, v)) xs
      = Inr ts
     \<longleftrightarrow> (\<forall>a\<in>set xs. y (fi a, fj a) \<noteq> None) \<and> ts = map (\<lambda>a. (c a, the (y (fi a, fj a)))) xs"
  (is "collect ?f xs = Inr ts \<longleftrightarrow> ?ok \<and> ts = ?r")
proof -
  have 1: "\<And>a. (\<exists>b. ?f a = Inr b) \<longleftrightarrow> y (fi a, fj a) \<noteq> None"
    by (auto simp: getitem2_def split: option.splits)
  have 2: "\<And>a. y (fi a, fj a) \<noteq> None \<Longrightarrow> projr (?f a) = (c a, the (y (fi a, fj a)))"
    by (auto simp: getitem2_def)
  have "?ok \<Longrightarrow> map (\<lambda>a. projr (?f a)) xs = ?r"
    by (rule map_cong) (simp_all add: 2)
  then show ?thesis
    unfolding collect_Inr_iff 1 by auto
qed

lemma collect_vars2_Inl:
  "collect (\<lambda>a. case getitem2 y (fi a) (fj a) of Inl e \<Rightarrow> Inl e | Inr v \<Rightarrow> Inr (c a, v)) xs
      = Inl e
     \<Longrightarrow> \<exists>a\<in>set xs. y (fi a, fj a) = None"
  by (drule collect_Inl_member) (auto simp: getitem2_def split: option.splits)

lemma collect_objective:
  "collect (\<lambda>(i, j). case getitem pop i of Inl e \<Rightarrow> Inl e
              | Inr c \<Rightarrow> (case getitem2 y i j of Inl e \<Rightarrow> Inl e | Inr v \<Rightarrow> Inr (c, v))) ps
      = Inr ts
     \<longleftrightarrow> (\<forall>(i, j)\<in>set ps. pop i \<noteq> None \<and> y (i, j) \<noteq> None) \<and>
         ts = map (\<lambda>(i, j). (the (pop i), the (y (i, j)))) ps"
  (is "collect ?f ps = Inr ts \<longleftrightarrow> ?ok \<and> ts = ?r")
proof -
  have 1: "\<And>a. (\<exists>b. ?f a = Inr b) \<longleftrightarrow> (case a of (i, j) \<Rightarrow> pop i \<noteq> None \<and> y (i, j) \<noteq> None)"
    by (auto simp: getitem_def getitem2_def split: option.splits prod.splits)
  have 2: "\<And>a. (case a of (i, j) \<Rightarrow> pop i \<noteq> None \<and> y (i, j) \<noteq> None) \<Longrightarrow>
             projr (?f a) = (case a of (i, j) \<Rightarrow> (the (pop i), the (y (i, j))))"
    by (auto simp: getitem_def getitem2_def split: prod.splits)
  have "?ok \<Longrightarrow> map (\<lambda>a. projr (?f a)) ps = ?r"
    by (rule map_cong) (simp_all add: 2)
  then show ?thesis
    unfolding collect_Inr_iff 1 by auto
qed

lemma objective_terms_Inr_iff:
  "objective_terms pop y hs js = Inr ts \<longleftrightarrow>
     (\<forall>i\<in>set hs. \<forall>j\<in>set js. pop i \<noteq> None \<and> y (i, j) \<noteq> None) \<and>
     ts = map (\<lambda>(i, j). (the (pop i), the (y (i, j)))) (List.product hs js)"
  unfolding objective_terms_def collect_objective by auto

lemma eval_quicksum:
  "eval_linexpr sol (quicksum (map (\<lambda>a. (c a, v a)) xs)) =
     sum_list (map (\<lambda>a. c a * sol (v a)) xs)"
  by (simp add: quicksum_def comp_def)

lemma constr_holds_mk:
  "constr_holds sol (mk_constr l s r n lz) =
     (case s of
        LessEqual \<Rightarrow> eval_linexpr sol l \<le> eval_linexpr sol r
      | Equal \<Rightarrow> eval_linexpr sol l = eval_linexpr sol r
      | GreaterEqual \<Rightarrow> eval_linexpr sol l \<ge> eval_linexpr sol r)"
  by (cases s) (simp_all add: constr_holds_def mk_constr_def)

subsection \<open>The constraint families\<close>

lemma existing_row_Inr:
  "existing_row x j = Inr c \<longleftrightarrow>
     (\<exists>v. x j = Some v \<and>
        c = [mk_constr (LinExpr [(1, v)] 0) Equal (LinExpr [] 1) (''existing_hospital_'' @ j) False])"
  by (auto simp: existing_row_def getitem_def split: option.splits)

lemma budget_rows_Inr:
  "budget_rows x candidates p = Inr c \<longleftrightarrow>
     (\<forall>j\<in>set candidates. x j \<noteq> None) \<and>
     c = [mk_constr (quicksum (map (\<lambda>j. (1, the (x j))) candidates)) LessEqual (LinExpr [] p)
            ''max_new_hospitals'' False]"
  by (auto simp: budget_rows_def collect_vars1 split: sum.splits dest!: collect_vars1_Inl)

lemma linking_row_Inr:
  "linking_row x y hs j = Inr c \<longleftrightarrow>
     (\<forall>i\<in>set hs. y (i, j) \<noteq> None) \<and>
     (\<exists>v. x j = Some v \<and>
        c = [mk_constr (quicksum (map (\<lambda>i. (1, the (y (i, j)))) hs)) LessEqual
               (LinExpr [(int (length hs), v)] 0) (''facility_open_'' @ j) False])"
  by (auto simp: linking_row_def collect_vars2 getitem_def split: sum.splits option.splits
      dest!: collect_vars2_Inl)

lemma single_row_Inr:
  "single_row y js i = Inr c \<longleftrightarrow>
     (\<forall>j\<in>set js. y (i, j) \<noteq> None) \<and>
     c = [mk_constr (quicksum (map (\<lambda>j. (1, the (y (i, j)))) js)) LessEqual (LinExpr [] 1)
            (''single_assignment_'' @ i) False]"
  by (auto simp: single_row_def collect_vars2 split: sum.splits dest!: collect_vars2_Inl)

lemma distance_row_Inr:
  "distance_row ind y i j = Inr c \<longleftrightarrow>
     (\<exists>v row a. y (i, j) = Some v \<and> ind i = Some row \<and> row j = Some a \<and>
        c = [mk_constr (LinExpr [(1, v)] 0) LessEqual (LinExpr [] a)
               (''distance_limit_'' @ i @ ''_'' @ j) False])"
  by (auto simp: distance_row_def getitem_def getitem2_def split: option.splits)

lemma lazy_row_Inr:
  "lazy_row ind y i j = Inr c \<longleftrightarrow>
     (\<exists>row a. ind i = Some row \<and> row j = Some a \<and>
        (if a = 0
         then \<exists>v. y (i, j) = Some v \<and>
                c = [mk_constr (LinExpr [(1, v)] 0) LessEqual (LinExpr [] 0)
                       (''distance_limit_'' @ i @ ''_'' @ j) True]
         else c = []))"
  by (auto simp: lazy_row_def getitem_def getitem2_def split: option.splits)

lemma distance_row_Inl:
  "y (i, j) \<noteq> None \<Longrightarrow>
   distance_row ind y i j = Inl e \<longleftrightarrow>
     (ind i = None \<and> e = KeyError_str i) \<or>
     (\<exists>row. ind i = Some row \<and> row j = None \<and> e = KeyError_str j)"
  by (auto simp: distance_row_def getitem_def getitem2_def split: option.splits)

lemma lazy_row_Inl:
  "y (i, j) \<noteq> None \<Longrightarrow>
   lazy_row ind y i j = Inl e \<longleftrightarrow>
     (ind i = None \<and> e = KeyError_str i) \<or>
     (\<exists>row. ind i = Some row \<and> row j = None \<and> e = KeyError_str j)"
  by (auto simp: lazy_row_def getitem_def getitem2_def split: option.splits)

lemma rows2_Inr:
  assumes "rows (\<lambda>i. rows (g i) js) hs = Inr cs"
  shows "\<forall>i\<in>set hs. \<forall>j\<in>set js. \<exists>c. g i j = Inr c"
    and "list_all P cs \<longleftrightarrow> (\<forall>i\<in>set hs. \<forall>j\<in>set js. list_all P (projr (g i j)))"
proof -
  have r: "\<forall>i\<in>set hs. \<exists>c. rows (g i) js = Inr c"
    using assms by (simp add: rows_Inr_iff)
  show "\<forall>i\<in>set hs. \<forall>j\<in>set js. \<exists>c. g i j = Inr c"
  proof (intro ballI)
    fix i j
    assume "i \<in> set hs" "j \<in> set js"
    then obtain c where "rows (g i) js = Inr c"
      using r by blast
    then show "\<exists>c. g i j = Inr c"
      using \<open>j \<in> set js\<close> by (simp add: rows_Inr_iff)
  qed
  have "list_all P cs \<longleftrightarrow> (\<forall>i\<in>set hs. list_all P (projr (rows (g i) js)))"
    using assms by (rule rows_list_all)
  also have "\<dots> \<longleftrightarrow> (\<forall>i\<in>set hs. \<forall>j\<in>set js. list_all P (projr (g i j)))"
  proof (intro ball_cong refl)
    fix i
    assume "i \<in> set hs"
    then obtain c where c: "rows (g i) js = Inr c"
      using r by blast
    then show "list_all P (projr (rows (g i) js)) \<longleftrightarrow> (\<forall>j\<in>set js. list_all P (projr (g i j)))"
      using rows_list_all [OF c, of P] by simp
  qed
  finally show "list_all P cs \<longleftrightarrow> (\<forall>i\<in>set hs. \<forall>j\<in>set js. list_all P (projr (g i j)))" .
qed

lemma existing_rows_sat:
  assumes "rows (existing_row x) ex = Inr cs"
  shows "list_all (constr_holds sol) cs \<longleftrightarrow> (\<forall>j\<in>set ex. sol (the (x j)) = 1)"
proof -
  have "list_all (constr_holds sol) cs \<longleftrightarrow>
          (\<forall>j\<in>set ex. list_all (constr_holds sol) (projr (existing_row x j)))"
    using assms by (rule rows_list_all)
  also have "\<dots> \<longleftrightarrow> (\<forall>j\<in>set ex. sol (the (x j)) = 1)"
  proof (intro ball_cong refl)
    fix j
    assume "j \<in> set ex"
    then obtain c where c: "existing_row x j = Inr c"
      using assms by (auto simp: rows_Inr_iff)
    then obtain v where v: "x j = Some v"
        "c = [mk_constr (LinExpr [(1, v)] 0) Equal (LinExpr [] 1) (''existing_hospital_'' @ j) False]"
      unfolding existing_row_Inr by blast
    show "list_all (constr_holds sol) (projr (existing_row x j)) \<longleftrightarrow> sol (the (x j)) = 1"
      by (simp add: c v constr_holds_mk)
  qed
  finally show ?thesis .
qed

lemma budget_rows_sat:
  assumes "budget_rows x cand p = Inr cs"
  shows "list_all (constr_holds sol) cs \<longleftrightarrow> sum_list (map (\<lambda>j. sol (the (x j))) cand) \<le> p"
proof -
  have "cs = [mk_constr (quicksum (map (\<lambda>j. (1, the (x j))) cand)) LessEqual (LinExpr [] p)
                ''max_new_hospitals'' False]"
    using assms unfolding budget_rows_Inr by blast
  then show ?thesis
    using eval_quicksum [of sol "\<lambda>j. 1" "\<lambda>j. the (x j)" cand]
    by (simp add: constr_holds_mk)
qed

lemma linking_rows_sat:
  assumes "rows (linking_row x y hs) js = Inr cs"
  shows "list_all (constr_holds sol) cs \<longleftrightarrow>
           (\<forall>j\<in>set js. sum_list (map (\<lambda>i. sol (the (y (i, j)))) hs)
                          \<le> int (length hs) * sol (the (x j)))"
proof -
  have "list_all (constr_holds sol) cs \<longleftrightarrow>
          (\<forall>j\<in>set js. list_all (constr_holds sol) (projr (linking_row x y hs j)))"
    using assms by (rule rows_list_all)
  also have "\<dots> \<longleftrightarrow> (\<forall>j\<in>set js. sum_list (map (\<lambda>i. sol (the (y (i, j)))) hs)
                          \<le> int (length hs) * sol (the (x j)))"
  proof (intro ball_cong refl)
    fix j
    assume "j \<in> set js"
    then obtain c where c: "linking_row x y hs j = Inr c"
      using assms by (auto simp: rows_Inr_iff)
    then obtain v where v: "x j = Some v"
        "c = [mk_constr (quicksum (map (\<lambda>i. (1, the (y (i, j)))) hs)) LessEqual
               (LinExpr [(int (length hs), v)] 0) (''facility_open_'' @ j) False]"
      unfolding linking_row_Inr by blast
    show "list_all (constr_holds sol) (projr (linking_row x y hs j)) \<longleftrightarrow>
        sum_list (map (\<lambda>i. sol (the (y (i, j)))) hs) \<le> int (length hs) * sol (the (x j))"
      using eval_quicksum [of sol "\<lambda>i. 1" "\<lambda>i. the (y (i, j))" hs]
      by (simp add: c v constr_holds_mk)
  qed
  finally show ?thesis .
qed

lemma single_rows_sat:
  assumes "rows (single_row y js) hs = Inr cs"
  shows "list_all (constr_holds sol) cs \<longleftrightarrow>
           (\<forall>i\<in>set hs. sum_list (map (\<lambda>j. sol (the (y (i, j)))) js) \<le> 1)"
proof -
  have "list_all (constr_holds sol) cs \<longleftrightarrow>
          (\<forall>i\<in>set hs. list_all (constr_holds sol) (projr (single_row y js i)))"
    using assms by (rule rows_list_all)
  also have "\<dots> \<longleftrightarrow> (\<forall>i\<in>set hs. sum_list (map (\<lambda>j. sol (the (y (i, j)))) js) \<le> 1)"
  proof (intro ball_cong refl)
    fix i
    assume "i \<in> set hs"
    then obtain c where c: "single_row y js i = Inr c"
      using assms by (auto simp: rows_Inr_iff)
    then have v: "c = [mk_constr (quicksum (map (\<lambda>j. (1, the (y (i, j)))) js)) LessEqual
                        (LinExpr [] 1) (''single_assignment_'' @ i) False]"
      unfolding single_row_Inr by blast
    show "list_all (constr_holds sol) (projr (single_row y js i)) \<longleftrightarrow>
        sum_list (map (\<lambda>j. sol (the (y (i, j)))) js) \<le> 1"
      using eval_quicksum [of sol "\<lambda>j. 1" "\<lambda>j. the (y (i, j))" js]
      by (simp add: c v constr_holds_mk)
  qed
  finally show ?thesis .
qed

lemma distance_rows_sat:
  assumes "rows (\<lambda>i. rows (distance_row ind y i) js) hs = Inr cs"
  shows "list_all (constr_holds sol) cs \<longleftrightarrow>
           (\<forall>i\<in>set hs. \<forall>j\<in>set js. sol (the (y (i, j))) \<le> the (case ind i of None \<Rightarrow> None | Some row \<Rightarrow> row j))"
proof -
  have "list_all (constr_holds sol) cs \<longleftrightarrow>
          (\<forall>i\<in>set hs. \<forall>j\<in>set js. list_all (constr_holds sol) (projr (distance_row ind y i j)))"
    using assms by (rule rows2_Inr(2))
  also have "\<dots> \<longleftrightarrow> (\<forall>i\<in>set hs. \<forall>j\<in>set js. sol (the (y (i, j))) \<le> the (case ind i of None \<Rightarrow> None | Some row \<Rightarrow> row j))"
  proof (intro ball_cong refl)
    fix i j
    assume "i \<in> set hs" "j \<in> set js"
    then obtain c where c: "distance_row ind y i j = Inr c"
      using rows2_Inr(1) [OF assms] by blast
    then obtain v row a where v: "y (i, j) = Some v" "ind i = Some row" "row j = Some a"
        "c = [mk_constr (LinExpr [(1, v)] 0) LessEqual (LinExpr [] a)
               (''distance_limit_'' @ i @ ''_'' @ j) False]"
      unfolding distance_row_Inr by blast
    show "list_all (constr_holds sol) (projr (distance_row ind y i j)) \<longleftrightarrow>
        sol (the (y (i, j))) \<le> the (case ind i of None \<Rightarrow> None | Some row \<Rightarrow> row j)"
      by (simp add: c v constr_holds_mk)
  qed
  finally show ?thesis .
qed

lemma lazy_rows_sat:
  assumes "rows (\<lambda>i. rows (lazy_row ind y i) js) hs = Inr cs"
  shows "list_all (constr_holds sol) cs \<longleftrightarrow>
           (\<forall>i\<in>set hs. \<forall>j\<in>set js. (case ind i of None \<Rightarrow> None | Some row \<Rightarrow> row j) = Some 0 \<longrightarrow> sol (the (y (i, j))) \<le> 0)"
proof -
  have "list_all (constr_holds sol) cs \<longleftrightarrow>
          (\<forall>i\<in>set hs. \<forall>j\<in>set js. list_all (constr_holds sol) (projr (lazy_row ind y i j)))"
    using assms by (rule rows2_Inr(2))
  also have "\<dots> \<longleftrightarrow>
      (\<forall>i\<in>set hs. \<forall>j\<in>set js. (case ind i of None \<Rightarrow> None | Some row \<Rightarrow> row j) = Some 0 \<longrightarrow> sol (the (y (i, j))) \<le> 0)"
  proof (intro ball_cong refl)
    fix i j
    assume "i \<in> set hs" "j \<in> set js"
    then obtain c where c: "lazy_row ind y i j = Inr c"
      using rows2_Inr(1) [OF assms] by blast
    then obtain row a where v: "ind i = Some row" "row j = Some a"
        "if a = 0
         then \<exists>v. y (i, j) = Some v \<and>
                c = [mk_constr (LinExpr [(1, v)] 0) LessEqual (LinExpr [] 0)
                       (''distance_limit_'' @ i @ ''_'' @ j) True]
         else c = []"
      unfolding lazy_row_Inr by blast
    show "list_all (constr_holds sol) (projr (lazy_row ind y i j)) \<longleftrightarrow>
        ((case ind i of None \<Rightarrow> None | Some row \<Rightarrow> row j) = Some 0 \<longrightarrow> sol (the (y (i, j))) \<le> 0)"
    proof (cases "a = 0")
      case True
      then obtain w where "y (i, j) = Some w"
          "c = [mk_constr (LinExpr [(1, w)] 0) LessEqual (LinExpr [] 0)
                  (''distance_limit_'' @ i @ ''_'' @ j) True]"
        using v(3) by auto
      then show ?thesis
        using True by (simp add: c v(1,2) constr_holds_mk)
    next
      case False
      then have "c = []" using v(3) by simp
      then show ?thesis
        using False by (simp add: c v(1,2))
    qed
  qed
  finally show ?thesis .
qed

subsection \<open>The dictionaries of variables\<close>


lemma y_dict_dom: "dom (y_dict d) = set (households d) \<times> set (all_hospitals d)"
  by (simp add: y_dict_eq y_alloc_dom)



lemma y_dict_bounded:
  "bounded_map (length (all_hospitals d))
     (length (all_hospitals d) + length (households d) * length (all_hospitals d)) (y_dict d)"
  unfolding y_dict_eq
  by (rule y_alloc_bounded [OF bounded_map_empty]) simp

lemma length_var_decls:
  "length (var_decls d) =
     length (all_hospitals d) + length (households d) * length (all_hospitals d)"
proof -
  have "\<And>f js hs. sum_list (map (\<lambda>i. length (map (f i) js)) hs) = length hs * length js"
  proof -
    fix f :: "'a \<Rightarrow> 'b \<Rightarrow> 'c" and js :: "'b list" and hs :: "'a list"
    show "sum_list (map (\<lambda>i. length (map (f i) js)) hs) = length hs * length js"
      by (induction hs) simp_all
  qed
  then show ?thesis
    by (simp add: var_decls_def length_concat comp_def)
qed

lemma var_decls_binary: "v < length (var_decls d) \<Longrightarrow> fst (var_decls d ! v) = BINARY"
proof -
  assume "v < length (var_decls d)"
  then have "var_decls d ! v \<in> set (var_decls d)" by (rule nth_mem)
  then show ?thesis by (auto simp: var_decls_def)
qed

lemma bounded_mapD: "bounded_map lo n x \<Longrightarrow> x j = Some v \<Longrightarrow> lo \<le> v \<and> v < n"
  unfolding bounded_map_def by blast


lemma y_var_lt:
  "y_dict d k = Some v \<Longrightarrow> v < length (var_decls d)"
  using bounded_mapD [OF y_dict_bounded, of d k v] by (simp add: length_var_decls)


lemma y_var_defined:
  "i \<in> set (households d) \<Longrightarrow> j \<in> set (all_hospitals d) \<Longrightarrow> \<exists>v. y_dict d (i, j) = Some v"
  using y_dict_dom [of d] by blast


subsection \<open>What a successful build contains\<close>

lemma eval_quicksum2:
  "eval_linexpr sol (quicksum (map (\<lambda>(i, j). (c i j, v i j)) ps)) =
     sum_list (map (\<lambda>(i, j). c i j * sol (v i j)) ps)"
  by (induction ps) (auto simp: quicksum_def)

lemma formulation_cases:
  assumes "formulation nm lz d = Inr M"
  obtains ts cs c5 where
    "common_rows d = Inr (ts, cs)" "distance_rows lz d = Inr c5"
    "M = \<lparr>m_name = nm, m_vars = var_decls d, m_objective = quicksum ts,
          m_sense = MAXIMIZE, m_constrs = cs @ c5\<rparr>"
  using assms unfolding formulation_def by (auto split: sum.splits)

lemma common_rows_cases:
  assumes "common_rows d = Inr (ts, cs)"
  obtains c1 c2 c3 c4 where
    "objective_terms (population d) (y_dict d) (households d) (all_hospitals d) = Inr ts"
    "rows (existing_row (x_dict d)) (existing_hospitals d) = Inr c1"
    "budget_rows (x_dict d) (candidate_hospitals d) (max_new_hospitals d) = Inr c2"
    "rows (linking_row (x_dict d) (y_dict d) (households d)) (all_hospitals d) = Inr c3"
    "rows (single_row (y_dict d) (all_hospitals d)) (households d) = Inr c4"
    "cs = c1 @ c2 @ c3 @ c4"
  using assms unfolding common_rows_def by (auto split: sum.splits)

lemma domains_ok_binary:
  assumes "m_vars M = var_decls d"
  shows "domains_ok M sol \<longleftrightarrow> binary_vars d sol"
  by (auto simp: domains_ok_def binary_vars_def list_all_iff assms var_decls_binary
      in_domain_def)

lemma common_rows_sat:
  assumes "common_rows d = Inr (ts, cs)"
  shows "list_all (constr_holds sol) cs \<longleftrightarrow>
           sat_existing d sol \<and> sat_budget d sol \<and> sat_linking d sol \<and> sat_single d sol"
proof -
  from assms obtain c1 c2 c3 c4 where
    r: "rows (existing_row (x_dict d)) (existing_hospitals d) = Inr c1"
       "budget_rows (x_dict d) (candidate_hospitals d) (max_new_hospitals d) = Inr c2"
       "rows (linking_row (x_dict d) (y_dict d) (households d)) (all_hospitals d) = Inr c3"
       "rows (single_row (y_dict d) (all_hospitals d)) (households d) = Inr c4"
    and cs: "cs = c1 @ c2 @ c3 @ c4"
    by (rule common_rows_cases)
  show ?thesis
    unfolding cs list_all_append sat_existing_def sat_budget_def sat_linking_def sat_single_def
      existing_rows_sat [OF r(1)] budget_rows_sat [OF r(2)] linking_rows_sat [OF r(3)]
      single_rows_sat [OF r(4)]
    by (rule refl)
qed

lemma distance_rows_dense_sat:
  assumes "distance_rows False d = Inr c5"
  shows "list_all (constr_holds sol) c5 \<longleftrightarrow> sat_distance d sol"
  using distance_rows_sat [of "distance_indicators d" "y_dict d" "all_hospitals d" "households d" c5 sol]
    assms
  by (simp add: distance_rows_def sat_distance_def indicator_def)

lemma distance_rows_lazy_sat:
  assumes "distance_rows True d = Inr c5"
  shows "list_all (constr_holds sol) c5 \<longleftrightarrow> sat_distance_lazy d sol"
  using lazy_rows_sat [of "distance_indicators d" "y_dict d" "all_hospitals d" "households d" c5 sol]
    assms
  by (simp add: distance_rows_def sat_distance_lazy_def indicator_def)

lemma formulation_feasible:
  assumes "formulation nm lz d = Inr M"
  shows "feasible M sol \<longleftrightarrow>
           binary_vars d sol \<and> sat_existing d sol \<and> sat_budget d sol \<and> sat_linking d sol \<and>
           sat_single d sol \<and> (if lz then sat_distance_lazy d sol else sat_distance d sol)"
proof -
  from assms obtain ts cs c5 where
    c: "common_rows d = Inr (ts, cs)" and r: "distance_rows lz d = Inr c5"
    and M: "M = \<lparr>m_name = nm, m_vars = var_decls d, m_objective = quicksum ts,
                 m_sense = MAXIMIZE, m_constrs = cs @ c5\<rparr>"
    by (rule formulation_cases)
  have v: "m_vars M = var_decls d" by (simp add: M)
  have 5: "list_all (constr_holds sol) c5 \<longleftrightarrow>
             (if lz then sat_distance_lazy d sol else sat_distance d sol)"
    using r distance_rows_dense_sat [of d c5 sol] distance_rows_lazy_sat [of d c5 sol]
    by (cases lz) simp_all
  have "list_all (constr_holds sol) (m_constrs M) \<longleftrightarrow>
          list_all (constr_holds sol) cs \<and> list_all (constr_holds sol) c5"
    by (simp add: M)
  then show ?thesis
    unfolding feasible_def domains_ok_binary [OF v] common_rows_sat [OF c] 5 by blast
qed

lemma formulation_objective:
  assumes "formulation nm lz d = Inr M"
  shows "objective_value M sol =
           sum_list (map (\<lambda>(i, j). the (population d i) * sol (the (y_dict d (i, j))))
                      (List.product (households d) (all_hospitals d)))"
    and "m_sense M = MAXIMIZE"
proof -
  from assms obtain ts cs c5 where
    c: "common_rows d = Inr (ts, cs)"
    and M: "M = \<lparr>m_name = nm, m_vars = var_decls d, m_objective = quicksum ts,
                 m_sense = MAXIMIZE, m_constrs = cs @ c5\<rparr>"
    by (rule formulation_cases)
  from c have "objective_terms (population d) (y_dict d) (households d) (all_hospitals d) = Inr ts"
    by (rule common_rows_cases)
  then have ts: "ts = map (\<lambda>(i, j). (the (population d i), the (y_dict d (i, j))))
                       (List.product (households d) (all_hospitals d))"
    by (simp add: objective_terms_Inr_iff)
  show "objective_value M sol =
           sum_list (map (\<lambda>(i, j). the (population d i) * sol (the (y_dict d (i, j))))
                      (List.product (households d) (all_hospitals d)))"
    by (simp add: objective_value_def M ts eval_quicksum2)
  show "m_sense M = MAXIMIZE" by (simp add: M)
qed

lemma formulation_data:
  assumes "formulation nm lz d = Inr M"
    and "i \<in> set (households d)" "j \<in> set (all_hospitals d)"
  shows "population d i \<noteq> None" and "indicator d i j \<noteq> None"
proof -
  from assms(1) obtain ts cs c5 where
    c: "common_rows d = Inr (ts, cs)" and r: "distance_rows lz d = Inr c5"
    by (rule formulation_cases)
  from c have "objective_terms (population d) (y_dict d) (households d) (all_hospitals d) = Inr ts"
    by (rule common_rows_cases)
  then show "population d i \<noteq> None"
    using assms(2,3) by (simp add: objective_terms_Inr_iff)
  show "indicator d i j \<noteq> None"
  proof (cases lz)
    case True
    then obtain c where "lazy_row (distance_indicators d) (y_dict d) i j = Inr c"
      using rows2_Inr(1) [of "lazy_row (distance_indicators d) (y_dict d)"
          "all_hospitals d" "households d" c5] r assms(2,3)
      by (auto simp: distance_rows_def)
    then show ?thesis
      unfolding lazy_row_Inr by (auto simp: indicator_def)
  next
    case False
    then obtain c where "distance_row (distance_indicators d) (y_dict d) i j = Inr c"
      using rows2_Inr(1) [of "distance_row (distance_indicators d) (y_dict d)"
          "all_hospitals d" "households d" c5] r assms(2,3)
      by (auto simp: distance_rows_def)
    then show ?thesis
      unfolding distance_row_Inr by (auto simp: indicator_def)
  qed
qed


subsection \<open>Dense and lazy distance constraints\<close>

lemma distance_rows_err:
  "distance_rows False d = Inl e \<longleftrightarrow> distance_rows True d = Inl e"
  unfolding distance_rows_def
proof (rule rows_cong_err)
  fix i e
  assume i: "i \<in> set (households d)"
  show "rows ((if False then lazy_row else distance_row) (distance_indicators d) (y_dict d) i)
          (all_hospitals d) = Inl e \<longleftrightarrow>
        rows ((if True then lazy_row else distance_row) (distance_indicators d) (y_dict d) i)
          (all_hospitals d) = Inl e"
  proof (rule rows_cong_err)
    fix j e
    assume "j \<in> set (all_hospitals d)"
    then have "y_dict d (i, j) \<noteq> None"
      using i y_var_defined [of i d j] by auto
    then show "(if False then lazy_row else distance_row) (distance_indicators d) (y_dict d) i j
                 = Inl e \<longleftrightarrow>
               (if True then lazy_row else distance_row) (distance_indicators d) (y_dict d) i j
                 = Inl e"
      by (simp add: distance_row_Inl lazy_row_Inl)
  qed
qed

lemma formulation_err:
  "formulation nm False d = Inl e \<longleftrightarrow> formulation nm' True d = Inl e"
proof (cases "common_rows d")
  case (Inl e')
  then show ?thesis by (simp add: formulation_def)
next
  case (Inr p)
  obtain ts cs where p: "p = (ts, cs)" by (cases p)
  show ?thesis
  proof (cases "distance_rows False d")
    case (Inl e1)
    then have "distance_rows True d = Inl e1"
      using distance_rows_err [of d e1] by simp
    with Inl Inr p show ?thesis by (simp add: formulation_def)
  next
    case r: (Inr c5)
    show ?thesis
    proof (cases "distance_rows True d")
      case (Inl e2)
      then have "distance_rows False d = Inl e2"
        using distance_rows_err [of d e2] by simp
      with r show ?thesis by simp
    next
      case r': (Inr c5')
      show ?thesis
        using Inr p r r' by (simp add: formulation_def)
    qed
  qed
qed

lemma sat_distance_iff:
  assumes "indicators_binary d" "binary_vars d sol"
    and "\<forall>i\<in>set (households d). \<forall>j\<in>set (all_hospitals d). indicator d i j \<noteq> None"
  shows "sat_distance d sol \<longleftrightarrow> sat_distance_lazy d sol"
  unfolding sat_distance_def sat_distance_lazy_def
proof (intro ball_cong refl)
  fix i j
  assume ij: "i \<in> set (households d)" "j \<in> set (all_hospitals d)"
  then obtain a where a: "indicator d i j = Some a"
    using assms(3) by blast
  then have a01: "a = 0 \<or> a = 1"
    using assms(1) ij by (auto simp: indicators_binary_def)
  obtain v where v: "y_dict d (i, j) = Some v"
    using y_var_defined [OF ij] by blast
  then have "sol v = 0 \<or> sol v = 1"
    using assms(2) y_var_lt [OF v] by (simp add: binary_vars_def)
  then show "sol (the (y_dict d (i, j))) \<le> the (indicator d i j) \<longleftrightarrow>
             (indicator d i j = Some 0 \<longrightarrow> sol (the (y_dict d (i, j))) \<le> 0)"
    using a a01 v by auto
qed

subsection \<open>The empty assignment\<close>






subsection \<open>The linking constraint\<close>

lemma linking_constr_mem:
  assumes M: "formulation nm lz d = Inr M" and j: "j \<in> set (all_hospitals d)"
  shows "\<exists>xv. x_dict d j = Some xv \<and> linking_constr d j xv \<in> set (m_constrs M)"
proof -
  from M obtain ts cs c5 where
    c: "common_rows d = Inr (ts, cs)"
    and Meq: "M = \<lparr>m_name = nm, m_vars = var_decls d, m_objective = quicksum ts,
                   m_sense = MAXIMIZE, m_constrs = cs @ c5\<rparr>"
    by (rule formulation_cases)
  from c obtain c1 c2 c3 c4 where
    r3: "rows (linking_row (x_dict d) (y_dict d) (households d)) (all_hospitals d) = Inr c3"
    and cs: "cs = c1 @ c2 @ c3 @ c4"
    by (rule common_rows_cases)
  obtain c where cj: "linking_row (x_dict d) (y_dict d) (households d) j = Inr c"
    using r3 j by (auto simp: rows_Inr_iff)
  then obtain xv where xv: "x_dict d j = Some xv" "c = [linking_constr d j xv]"
    unfolding linking_row_Inr linking_constr_def mk_constr_def by blast
  have "c3 = concat (map (\<lambda>a. projr (linking_row (x_dict d) (y_dict d) (households d) a))
                       (all_hospitals d))"
    using r3 by (simp add: rows_Inr_iff)
  moreover have "linking_constr d j xv
      \<in> set (projr (linking_row (x_dict d) (y_dict d) (households d) j))"
    using cj xv(2) by simp
  ultimately have "linking_constr d j xv \<in> set c3"
    using j by auto
  then show ?thesis
    using xv(1) by (auto simp: Meq cs)
qed

lemma linking_constr_holds:
  "constr_holds sol (linking_constr d j xv) \<longleftrightarrow>
     sum_list (map (\<lambda>i. sol (the (y_dict d (i, j)))) (households d))
       \<le> int (length (households d)) * sol xv"
  using eval_quicksum [of sol "\<lambda>i. 1" "\<lambda>i. the (y_dict d (i, j))" "households d"]
  by (simp add: constr_holds_def linking_constr_def)

lemma sum_list_le_length:
  "(\<And>a. a \<in> set xs \<Longrightarrow> f a \<le> (1::int)) \<Longrightarrow> sum_list (map f xs) \<le> int (length xs)"
  by (induction xs) (simp_all add: add_mono)

subsection \<open>The example instance\<close>

lemma example_indicators_binary: "indicators_binary example_data"
  by (simp add: indicators_binary_def indicator_def example_data_def)

lemma example_dense_builds: "\<not> isl (generate_gurobipy_model example_data)"
  by code_simp

lemma example_lazy_builds: "\<not> isl (build_model example_data)"
  by code_simp

lemma example_x_dict: "x_dict example_data ''EJ1'' = Some 0" "x_dict example_data ''CJ1'' = Some 1"
  by (simp_all add: x_dict_eq example_data_def)

lemma builders_read_only:
  assumes "households d1 = households d2"
    and "existing_hospitals d1 = existing_hospitals d2"
    and "candidate_hospitals d1 = candidate_hospitals d2"
    and "all_hospitals d1 = all_hospitals d2"
    and "population d1 = population d2"
    and "distance_indicators d1 = distance_indicators d2"
    and "max_new_hospitals d1 = max_new_hospitals d2"
  shows "generate_gurobipy_model d1 = generate_gurobipy_model d2"
    and "build_model d1 = build_model d2"
  unfolding generate_gurobipy_model_def build_model_def assms by simp_all

section \<open>Claims about the formulation builders\<close>

text \<open>
  C1. For every instance whose feasibility indicators are 0 or 1, the dense builder and the
  sparse, lazy builder either both raise the same exception or both return a formulation,
  and then the two formulations have the same feasible solutions, the same objective value
  at every solution and the same optimal objective values; in both, a pair whose indicator
  is 0 has assignment 0 in every feasible solution.
\<close>

theorem dense_and_lazy_formulations_equivalent:
  assumes "indicators_binary d"
  shows "(\<exists>e. generate_gurobipy_model d = Inl e \<and> build_model d = Inl e) \<or>
         (\<exists>Md Ms. generate_gurobipy_model d = Inr Md \<and> build_model d = Inr Ms \<and>
            (\<forall>sol. feasible Md sol = feasible Ms sol) \<and>
            (\<forall>sol. objective_value Md sol = objective_value Ms sol) \<and>
            (\<forall>a. is_optimal_value Md a = is_optimal_value Ms a) \<and>
            (\<forall>sol. \<forall>i\<in>set (households d). \<forall>j\<in>set (all_hospitals d). \<forall>v.
               indicator d i j = Some 0 \<longrightarrow> y_dict d (i, j) = Some v \<longrightarrow>
               feasible Md sol \<or> feasible Ms sol \<longrightarrow> sol v = 0))"
proof (cases "generate_gurobipy_model d")
  case (Inl e)
  then have "build_model d = Inl e"
    using formulation_err [of "''TimorLeste_Inefficient''" d e "''TimorLeste_Healthcare''"]
    by (simp add: generate_gurobipy_model_eq build_model_eq)
  with Inl show ?thesis by blast
next
  case (Inr Md)
  then have Md: "formulation ''TimorLeste_Inefficient'' False d = Inr Md"
    by (simp add: generate_gurobipy_model_eq)
  obtain Ms where Ms: "formulation ''TimorLeste_Healthcare'' True d = Inr Ms"
  proof (cases "formulation ''TimorLeste_Healthcare'' True d")
    case (Inl e)
    then have "formulation ''TimorLeste_Inefficient'' False d = Inl e"
      by (simp add: formulation_err [of "''TimorLeste_Inefficient''" d e "''TimorLeste_Healthcare''"])
    with Md show ?thesis by simp
  next
    case (Inr M)
    then show ?thesis by (rule that)
  qed
  have present: "\<forall>i\<in>set (households d). \<forall>j\<in>set (all_hospitals d). indicator d i j \<noteq> None"
    using formulation_data(2) [OF Md] by blast
  have feq: "feasible Md sol = feasible Ms sol" for sol
  proof (cases "binary_vars d sol")
    case True
    then show ?thesis
      using sat_distance_iff [OF assms True present]
      by (simp add: formulation_feasible [OF Md] formulation_feasible [OF Ms])
  next
    case False
    then show ?thesis
      by (simp add: formulation_feasible [OF Md] formulation_feasible [OF Ms])
  qed
  have oeq: "objective_value Md sol = objective_value Ms sol" for sol
    by (simp add: formulation_objective(1) [OF Md] formulation_objective(1) [OF Ms])
  have "feasible_values Md = feasible_values Ms"
    by (simp add: feasible_values_def feq oeq)
  then have opt: "is_optimal_value Md a = is_optimal_value Ms a" for a
    by (simp add: is_optimal_value_def formulation_objective(2) [OF Md]
        formulation_objective(2) [OF Ms])
  have zero: "sol v = 0"
    if ij: "i \<in> set (households d)" "j \<in> set (all_hospitals d)"
      and a: "indicator d i j = Some 0" and v: "y_dict d (i, j) = Some v"
      and f: "feasible Md sol \<or> feasible Ms sol" for sol i j v
  proof -
    have fs: "feasible Ms sol" using f feq by blast
    then have l: "sat_distance_lazy d sol" and bin: "binary_vars d sol"
      by (simp_all add: formulation_feasible [OF Ms])
    have "sol (the (y_dict d (i, j))) \<le> 0"
      using l ij a unfolding sat_distance_lazy_def by blast
    then have "sol v \<le> 0"
      using v by simp
    moreover have "sol v = 0 \<or> sol v = 1"
      using bin y_var_lt [OF v] unfolding binary_vars_def by blast
    ultimately show ?thesis by auto
  qed
  have "generate_gurobipy_model d = Inr Md \<and> build_model d = Inr Ms"
    using Inr Ms by (simp add: build_model_eq)
  then show ?thesis
    using feq oeq opt zero by blast
qed

theorem dense_and_lazy_formulations_equivalent_witness:
  "indicators_binary example_data \<and>
   \<not> isl (generate_gurobipy_model example_data) \<and>
   \<not> isl (build_model example_data) \<and>
   feasible (projr (build_model example_data)) example_solution \<and>
   feasible (projr (generate_gurobipy_model example_data)) example_solution
     = feasible (projr (build_model example_data)) example_solution \<and>
   is_optimal_value (projr (generate_gurobipy_model example_data)) 195
     = is_optimal_value (projr (build_model example_data)) 195"
proof -
  have f: "feasible (projr (build_model example_data)) example_solution"
    by code_simp
  show ?thesis
    using dense_and_lazy_formulations_equivalent [OF example_indicators_binary]
      example_indicators_binary example_dense_builds example_lazy_builds f
    by auto
qed



text \<open>
  C9. In the formulation of either builder, the linking constraint of every site is
  \<open>sum over households of assign[h, s] <= |households| * open[s]\<close>, with the household
  count as coefficient. It holds in every solution that opens the site and assigns every
  household to it, and more generally in every solution with binary values that opens
  the site.
\<close>

theorem linking_bound_is_household_count:
  assumes "generate_gurobipy_model d = Inr M \<or> build_model d = Inr M"
    and "j \<in> set (all_hospitals d)"
  shows "\<exists>xv. x_dict d j = Some xv \<and>
           linking_constr d j xv \<in> set (m_constrs M) \<and>
           c_rhs (linking_constr d j xv) = LinExpr [(int (length (households d)), xv)] 0 \<and>
           (\<forall>sol. sol xv = 1 \<and>
                   (\<forall>i\<in>set (households d). \<forall>v. y_dict d (i, j) = Some v \<longrightarrow> sol v = 1)
                \<longrightarrow> constr_holds sol (linking_constr d j xv)) \<and>
           (\<forall>sol. sol xv = 1 \<and> binary_vars d sol \<longrightarrow> constr_holds sol (linking_constr d j xv))"
proof -
  obtain nm lz where M: "formulation nm lz d = Inr M"
    using assms(1) by (auto simp: generate_gurobipy_model_eq build_model_eq)
  obtain xv where xv: "x_dict d j = Some xv" "linking_constr d j xv \<in> set (m_constrs M)"
    using linking_constr_mem [OF M assms(2)] by blast
  have le1: "constr_holds sol (linking_constr d j xv)"
    if x: "sol xv = 1"
      and y: "\<And>i. i \<in> set (households d) \<Longrightarrow> sol (the (y_dict d (i, j))) \<le> 1" for sol
    using sum_list_le_length [of "households d" "\<lambda>i. sol (the (y_dict d (i, j)))"] x y
    by (simp add: linking_constr_holds)
  have a: "constr_holds sol (linking_constr d j xv)"
    if x: "sol xv = 1"
      and y: "\<forall>i\<in>set (households d). \<forall>v. y_dict d (i, j) = Some v \<longrightarrow> sol v = 1" for sol
  proof (rule le1 [of sol, OF x])
    fix i
    assume i: "i \<in> set (households d)"
    then obtain v where "y_dict d (i, j) = Some v"
      using y_var_defined [OF i assms(2)] by blast
    then show "sol (the (y_dict d (i, j))) \<le> 1"
      using y i by simp
  qed
  have b: "constr_holds sol (linking_constr d j xv)"
    if x: "sol xv = 1" and bin: "binary_vars d sol" for sol
  proof (rule le1 [of sol, OF x])
    fix i
    assume i: "i \<in> set (households d)"
    then obtain v where v: "y_dict d (i, j) = Some v"
      using y_var_defined [OF i assms(2)] by blast
    then have "sol v = 0 \<or> sol v = 1"
      using bin y_var_lt [OF v] by (simp add: binary_vars_def)
    then show "sol (the (y_dict d (i, j))) \<le> 1"
      using v by auto
  qed
  have "c_rhs (linking_constr d j xv) = LinExpr [(int (length (households d)), xv)] 0"
    by (simp add: linking_constr_def)
  then show ?thesis
    using xv a b by blast
qed

theorem linking_bound_is_household_count_witness:
  "''CJ1'' \<in> set (all_hospitals example_data) \<and>
   \<not> isl (build_model example_data) \<and>
   linking_constr example_data ''CJ1'' 1 \<in> set (m_constrs (projr (build_model example_data))) \<and>
   c_rhs (linking_constr example_data ''CJ1'' 1) = LinExpr [(2, 1)] 0 \<and>
   constr_holds example_solution (linking_constr example_data ''CJ1'' 1)"
proof -
  have j: "''CJ1'' \<in> set (all_hospitals example_data)"
    by (simp add: example_data_def)
  have b: "generate_gurobipy_model example_data = Inr (projr (build_model example_data)) \<or>
           build_model example_data = Inr (projr (build_model example_data))"
    using example_lazy_builds by simp
  have l: "int (length (households example_data)) = 2"
    by (simp add: example_data_def)
  have s: "example_solution 1 = 1" "binary_vars example_data example_solution"
    by (simp_all add: example_solution_def binary_vars_def)
  show ?thesis
    using linking_bound_is_household_count [OF b j] j example_lazy_builds example_x_dict(2) l s
    by auto
qed




text \<open>
  C10. Two instances that agree on the four id lists, the population mapping, the
  feasibility indicators and the budget get the same result from the dense builder and
  the same result from the sparse, lazy builder, whatever their travel distances and
  maximum travel distance.
\<close>

theorem builders_ignore_travel_distances:
  assumes "households d1 = households d2"
    and "existing_hospitals d1 = existing_hospitals d2"
    and "candidate_hospitals d1 = candidate_hospitals d2"
    and "all_hospitals d1 = all_hospitals d2"
    and "population d1 = population d2"
    and "distance_indicators d1 = distance_indicators d2"
    and "max_new_hospitals d1 = max_new_hospitals d2"
  shows "generate_gurobipy_model d1 = generate_gurobipy_model d2 \<and>
         build_model d1 = build_model d2"
  using builders_read_only [OF assms] by simp

theorem builders_ignore_travel_distances_witness:
  "travel_distances example_data \<noteq> travel_distances example_no_distances \<and>
   max_travel_distance example_data \<noteq> max_travel_distance example_no_distances \<and>
   generate_gurobipy_model example_data = generate_gurobipy_model example_no_distances \<and>
   build_model example_data = build_model example_no_distances"
proof -
  have "travel_distances example_no_distances ''H1'' = None"
    "travel_distances example_data ''H1'' \<noteq> None"
    by (simp_all add: example_no_distances_def example_data_def)
  then have t: "travel_distances example_data \<noteq> travel_distances example_no_distances"
    by metis
  have m: "max_travel_distance example_data \<noteq> max_travel_distance example_no_distances"
    by (simp add: example_no_distances_def example_data_def)
  show ?thesis
    using builders_ignore_travel_distances [of example_data example_no_distances] t m
    by (simp add: example_no_distances_def)
qed

declare str_nat.simps [simp del]

section \<open>The loops of the generator\<close>





lemma uniform_rows_length: "length (fst (uniform_rows R lo hi n h)) = n"
proof (induction n arbitrary: h)
  case 0
  show ?case by simp
next
  case (Suc n)
  obtain a h1 where a: "np_uniform R lo hi h = (a, h1)"
    by (cases "np_uniform R lo hi h")
  obtain b h2 where b: "np_uniform R lo hi h1 = (b, h2)"
    by (cases "np_uniform R lo hi h1")
  obtain rest h3 where r: "uniform_rows R lo hi n h2 = (rest, h3)"
    by (cases "uniform_rows R lo hi n h2")
  have "length rest = n"
    using Suc.IH [of h2] r by simp
  then show ?case
    by (simp add: a b r)
qed

lemma distance_row_loop_Inr:
  assumes "i < length hc" and "j + length hosps \<le> length sc"
  shows "\<exists>row' h'. distance_row_loop R hc sc i j hosps row h = Inr (row', h') \<and>
           dom row' = dom row \<union> set hosps \<and>
           (\<forall>s v. row' s = Some v \<longrightarrow> row s = Some v \<or> perturbed R (set hc) (set sc) v)"
  using assms(2)
proof (induction hosps arbitrary: j row h)
  case Nil
  show ?case by simp
next
  case (Cons hosp hosps)
  have j: "j < length sc" and j': "Suc j + length hosps \<le> length sc"
    using Cons.prems by simp_all
  obtain u h1 where u: "np_uniform R (- 10) 10 h = (u, h1)"
    by (cases "np_uniform R (- 10) 10 h")
  define v0 where "v0 = round2 (euclid (hc ! i) (sc ! j) + u)"
  define row1 where "row1 = row(hosp \<mapsto> v0)"
  have p0: "perturbed R (set hc) (set sc) v0"
    unfolding perturbed_def v0_def
    using assms(1) j u by (metis fst_conv nth_mem)
  obtain row' h' where
    r: "distance_row_loop R hc sc i (Suc j) hosps row1 h1 = Inr (row', h')"
    and d: "dom row' = dom row1 \<union> set hosps"
    and p: "\<forall>s v. row' s = Some v \<longrightarrow> row1 s = Some v \<or> perturbed R (set hc) (set sc) v"
    using Cons.IH [OF j', of row1 h1] by blast
  have "distance_row_loop R hc sc i j (hosp # hosps) row h = Inr (row', h')"
    using r assms(1) j u by (simp add: row1_def v0_def)
  moreover have "dom row' = dom row \<union> set (hosp # hosps)"
    using d by (auto simp: row1_def)
  moreover have "\<forall>s v. row' s = Some v \<longrightarrow> row s = Some v \<or> perturbed R (set hc) (set sc) v"
    using p p0 by (auto simp: row1_def split: if_splits)
  ultimately show ?case by blast
qed

lemma distance_loop_Inr:
  assumes "i + length hs \<le> length hc" and "length all \<le> length sc"
  shows "\<exists>td' h'. distance_loop R hc sc i hs all td h = Inr (td', h') \<and>
           dom td' = dom td \<union> set hs \<and>
           (\<forall>k row. td' k = Some row \<longrightarrow>
              td k = Some row \<or>
              (dom row = set all \<and> (\<forall>s v. row s = Some v \<longrightarrow> perturbed R (set hc) (set sc) v)))"
  using assms(1)
proof (induction hs arbitrary: i td h)
  case Nil
  show ?case by simp
next
  case (Cons hh hs)
  have i: "i < length hc" and i': "Suc i + length hs \<le> length hc"
    using Cons.prems by simp_all
  have "0 + length all \<le> length sc"
    using assms(2) by simp
  then obtain row h1 where
    r: "distance_row_loop R hc sc i 0 all Map.empty h = Inr (row, h1)"
    and d: "dom row = set all"
    and p: "\<forall>s v. row s = Some v \<longrightarrow> perturbed R (set hc) (set sc) v"
    using distance_row_loop_Inr [OF i, of 0 all sc R Map.empty h] by auto
  define td1 where "td1 = td(hh \<mapsto> row)"
  obtain td' h' where
    r': "distance_loop R hc sc (Suc i) hs all td1 h1 = Inr (td', h')"
    and d': "dom td' = dom td1 \<union> set hs"
    and p': "\<forall>k row. td' k = Some row \<longrightarrow>
              td1 k = Some row \<or>
              (dom row = set all \<and> (\<forall>s v. row s = Some v \<longrightarrow> perturbed R (set hc) (set sc) v))"
    using Cons.IH [OF i', of td1 h1] by blast
  have "distance_loop R hc sc i (hh # hs) all td h = Inr (td', h')"
    using r r' by (simp add: td1_def)
  moreover have "dom td' = dom td \<union> set (hh # hs)"
    using d' by (auto simp: td1_def)
  moreover have "\<forall>k row. td' k = Some row \<longrightarrow>
              td k = Some row \<or>
              (dom row = set all \<and> (\<forall>s v. row s = Some v \<longrightarrow> perturbed R (set hc) (set sc) v))"
  proof (intro allI impI)
    fix k rw
    assume "td' k = Some rw"
    then consider "td1 k = Some rw"
      | "dom rw = set all \<and> (\<forall>s v. rw s = Some v \<longrightarrow> perturbed R (set hc) (set sc) v)"
      using p' by blast
    then show "td k = Some rw \<or>
        (dom rw = set all \<and> (\<forall>s v. rw s = Some v \<longrightarrow> perturbed R (set hc) (set sc) v))"
    proof cases
      case 1
      then have "td k = Some rw \<or> rw = row"
        by (auto simp: td1_def split: if_splits)
      then show ?thesis using d p by blast
    next
      case 2
      then show ?thesis by blast
    qed
  qed
  ultimately show ?case by blast
qed

lemma indicator_row_loop_Inr:
  assumes "td hh = Some drow" and "set hosps \<subseteq> dom drow"
  shows "indicator_row_loop td S hh hosps row =
           Inr (\<lambda>s. if s \<in> set hosps then Some (if the (drow s) \<le> S then 1 else 0) else row s)"
  using assms(2)
proof (induction hosps arbitrary: row)
  case Nil
  show ?case by simp
next
  case (Cons hosp hosps)
  obtain dv where dv: "drow hosp = Some dv"
    using Cons.prems by auto
  define row1 where "row1 = row(hosp \<mapsto> (if dv \<le> S then 1 else 0 :: int))"
  have "set hosps \<subseteq> dom drow"
    using Cons.prems by simp
  then have "indicator_row_loop td S hh hosps row1 =
      Inr (\<lambda>s. if s \<in> set hosps then Some (if the (drow s) \<le> S then 1 else 0) else row1 s)"
    by (rule Cons.IH)
  moreover have "(\<lambda>s. if s \<in> set hosps then Some (if the (drow s) \<le> S then 1 else 0) else row1 s) =
      (\<lambda>s. if s \<in> set (hosp # hosps) then Some (if the (drow s) \<le> S then 1 else 0) else row s)"
    by (rule ext) (simp add: row1_def dv)
  ultimately show ?case
    using assms(1) dv by (simp add: getitem_def row1_def)
qed

lemma indicator_loop_Inr:
  assumes "\<forall>hh\<in>set hs. \<exists>drow. td hh = Some drow \<and> set all \<subseteq> dom drow"
  shows "indicator_loop td S hs all di =
           Inr (\<lambda>k. if k \<in> set hs
                    then Some (\<lambda>s. if s \<in> set all
                                    then Some (if the (the (td k) s) \<le> S then 1 else 0)
                                    else None)
                    else di k)"
  using assms
proof (induction hs arbitrary: di)
  case Nil
  show ?case by simp
next
  case (Cons hh hs)
  obtain drow where drow: "td hh = Some drow" "set all \<subseteq> dom drow"
    using Cons.prems by auto
  define irow where
    "irow = (\<lambda>s. if s \<in> set all then Some (if the (drow s) \<le> S then 1 else 0 :: int) else None)"
  have r: "indicator_row_loop td S hh all Map.empty = Inr irow"
    unfolding irow_def
    using indicator_row_loop_Inr [where td = td and hh = hh and drow = drow and hosps = all
        and S = S and row = Map.empty] drow
    by simp
  define di1 where "di1 = di(hh \<mapsto> irow)"
  have "\<forall>hh\<in>set hs. \<exists>drow. td hh = Some drow \<and> set all \<subseteq> dom drow"
    using Cons.prems by simp
  then have "indicator_loop td S hs all di1 =
      Inr (\<lambda>k. if k \<in> set hs
               then Some (\<lambda>s. if s \<in> set all
                               then Some (if the (the (td k) s) \<le> S then 1 else 0)
                               else None)
               else di1 k)"
    by (rule Cons.IH)
  moreover have "(\<lambda>k. if k \<in> set hs
               then Some (\<lambda>s. if s \<in> set all
                               then Some (if the (the (td k) s) \<le> S then 1 else 0 :: int)
                               else None)
               else di1 k) =
      (\<lambda>k. if k \<in> set (hh # hs)
               then Some (\<lambda>s. if s \<in> set all
                               then Some (if the (the (td k) s) \<le> S then 1 else 0)
                               else None)
               else di k)"
    using drow(1) by (auto simp: di1_def irow_def fun_eq_iff)
  ultimately show ?case
    using r by (simp add: di1_def)
qed

section \<open>What the generator returns\<close>

lemma generate_data_sized_generated:
  assumes "5 \<le> k"
  shows "\<exists>inst st'. generate_data_sized R n m k seed st = Inr (inst, st') \<and>
           generated R n m k seed inst"
proof -
  obtain u g1 where u: "random_uniform R 8 15 (random_seed R seed) = (u, g1)"
    by (cases "random_uniform R 8 15 (random_seed R seed)")
  obtain r g2 where r: "random_randint R 5 (int k) g1 = (r, g2)"
    by (cases "random_randint R 5 (int k) g1")
  obtain hcs h1 where hc: "uniform_rows R 0 100 n (np_seed R seed) = (hcs, h1)"
    by (cases "uniform_rows R 0 100 n (np_seed R seed)")
  obtain scs h2 where sc: "uniform_rows R 0 100 (m + k) h1 = (scs, h2)"
    by (cases "uniform_rows R 0 100 (m + k) h1")
  obtain pop h3 where pop: "draw_population R (household_ids n) Map.empty h2 = (pop, h3)"
    by (cases "draw_population R (household_ids n) Map.empty h2")
  have lh: "0 + length (household_ids n) \<le> length hcs"
    using uniform_rows_length [of R 0 100 n "np_seed R seed"] hc
    by (simp add: household_ids_def)
  have ls: "length (site_ids m k) \<le> length scs"
    using uniform_rows_length [of R 0 100 "m + k" h1] sc
    by (simp add: site_ids_def)
  obtain td h4 where
    td: "distance_loop R hcs scs 0 (household_ids n) (site_ids m k) Map.empty h3 = Inr (td, h4)"
    and dtd: "dom td = set (household_ids n)"
    and ptd: "\<forall>h row. td h = Some row \<longrightarrow>
                dom row = set (site_ids m k) \<and>
                (\<forall>s v. row s = Some v \<longrightarrow> perturbed R (set hcs) (set scs) v)"
    using distance_loop_Inr [OF lh ls, of R Map.empty h3] by auto
  have pre: "\<forall>hh\<in>set (household_ids n). \<exists>drow. td hh = Some drow \<and> set (site_ids m k) \<subseteq> dom drow"
  proof
    fix hh
    assume "hh \<in> set (household_ids n)"
    then obtain drow where d: "td hh = Some drow"
      using dtd by blast
    then have "dom drow = set (site_ids m k)"
      using ptd by blast
    with d show "\<exists>drow. td hh = Some drow \<and> set (site_ids m k) \<subseteq> dom drow"
      by blast
  qed
  define di where "di =
        (\<lambda>h. if h \<in> set (household_ids n)
              then Some (\<lambda>s. if s \<in> set (site_ids m k)
                              then Some (if the (the (td h) s) \<le> round2 u then 1 else 0 :: int)
                              else None)
              else None)"
  have di: "indicator_loop td (round2 u) (household_ids n) (site_ids m k) Map.empty = Inr di"
    unfolding di_def
    using indicator_loop_Inr [where td = td and hs = "household_ids n" and all = "site_ids m k"
        and S = "round2 u" and di = Map.empty] pre
    by simp
  define inst where "inst =
     \<lparr>households = household_ids n,
      existing_hospitals = map (\<lambda>i. ''EJ'' @ str_nat (i + 1)) [0..<m],
      candidate_hospitals = map (\<lambda>i. ''CJ'' @ str_nat (i + 1)) [0..<k],
      all_hospitals = site_ids m k,
      population = pop,
      travel_distances = td,
      distance_indicators = di,
      max_travel_distance = round2 u,
      max_new_hospitals = min r (int k)\<rparr>"
  have k5: "\<not> int k < 5"
    using assms by simp
  have "generate_data_sized R n m k seed st = Inr (inst, (g2, h4))"
    unfolding generate_data_sized_def Let_def
    using u r hc sc pop td di k5
    by (simp add: household_ids_def site_ids_def inst_def)
  moreover have "generated R n m k seed inst"
  proof -
    have sel: "households inst = household_ids n" "all_hospitals inst = site_ids m k"
      "max_travel_distance inst = round2 u" "max_new_hospitals inst = min r (int k)"
      "travel_distances inst = td" "distance_indicators inst = di"
      by (simp_all add: inst_def)
    have dr: "drawn_max_distance R seed = round2 u" "drawn_budget R k seed = r"
      "household_positions R n seed = hcs" "site_positions R n m k seed = scs"
      by (simp_all add: drawn_max_distance_def drawn_budget_def household_positions_def
          site_positions_def u r hc sc)
    have "di = (\<lambda>h. if h \<in> set (household_ids n)
              then Some (\<lambda>s. if s \<in> set (site_ids m k)
                              then Some (if the (the (td h) s) \<le> round2 u then 1 else 0)
                              else None)
              else None)"
      by (simp add: di_def)
    then show ?thesis
      unfolding generated_def sel dr using dtd ptd di by blast
  qed
  ultimately show ?thesis by blast
qed

lemma generate_data_generated:
  "\<exists>inst st'. generate_data R seed st = Inr (inst, st') \<and> generated R 20000 15 100 seed inst"
  unfolding generate_data_def by (rule generate_data_sized_generated) simp

lemma generated_indicator:
  assumes "generated R n m k seed inst"
    and "h \<in> set (households inst)" and "s \<in> set (all_hospitals inst)"
  shows "\<exists>dv. travel_distance inst h s = Some dv \<and>
           indicator inst h s = Some (if dv \<le> max_travel_distance inst then 1 else 0)"
proof -
  have hh: "h \<in> set (household_ids n)" and ss: "s \<in> set (site_ids m k)"
    using assms unfolding generated_def by simp_all
  obtain row where row: "travel_distances inst h = Some row"
    using assms(1) hh unfolding generated_def by blast
  then have "dom row = set (site_ids m k)"
    using assms(1) unfolding generated_def by blast
  then obtain dv where dv: "row s = Some dv"
    using ss by blast
  have di: "distance_indicators inst =
        (\<lambda>h. if h \<in> set (household_ids n)
              then Some (\<lambda>s. if s \<in> set (site_ids m k)
                              then Some (if the (the (travel_distances inst h) s)
                                            \<le> drawn_max_distance R seed then 1 else 0)
                              else None)
              else None)"
    and S: "max_travel_distance inst = drawn_max_distance R seed"
    using assms(1) unfolding generated_def by blast+
  have "travel_distance inst h s = Some dv"
    by (simp add: travel_distance_def row dv)
  moreover have "indicator inst h s = Some (if dv \<le> max_travel_distance inst then 1 else 0)"
    unfolding indicator_def di by (simp add: hh ss row dv S)
  ultimately show ?thesis by blast
qed

lemma generated_distance:
  assumes "generated R n m k seed inst" and "travel_distance inst h s = Some v"
  shows "perturbed R (set (household_positions R n seed)) (set (site_positions R n m k seed)) v"
proof -
  obtain row where row: "travel_distances inst h = Some row" "row s = Some v"
    using assms(2) by (auto simp: travel_distance_def split: option.splits)
  then show ?thesis
    using assms(1) unfolding generated_def by blast
qed

subsection \<open>The generator whose draws are the lower ends\<close>

lemma str_nat_1: "str_nat (Suc 0) = ''1''"
  by (simp add: str_nat.simps digit_def)

lemma round2_minus_10: "round2 (- 10) = - 10"
  by (simp add: round2_def round_half_even_def)

lemma round2_8: "round2 8 = 8"
  by (simp add: round2_def round_half_even_def)

lemma uniform_rows_low: "fst (uniform_rows low_rng lo hi n h) = replicate n (lo, lo)"
  by (induction n arbitrary: h) (auto simp: low_rng_def split: prod.splits)



lemma perturbed_low:
  assumes "perturbed low_rng (set (household_positions low_rng n seed))
             (set (site_positions low_rng n m k seed)) v"
  shows "v = - 10"
proof -
  from assms obtain a b h where
    a: "a \<in> set (household_positions low_rng n seed)"
    and b: "b \<in> set (site_positions low_rng n m k seed)"
    and v: "v = round2 (euclid a b + fst (np_uniform low_rng (- 10) 10 h))"
    unfolding perturbed_def by blast
  have "a = (0, 0)"
    using a by (simp add: household_positions_def uniform_rows_low)
  moreover have "b = (0, 0)"
    using b by (simp add: site_positions_def uniform_rows_low)
  moreover have "fst (np_uniform low_rng (- 10) 10 h) = - 10"
    by (simp add: low_rng_def)
  ultimately show ?thesis
    using v by (simp add: round2_minus_10)
qed

lemma low_instance_generated:
  "generate_data low_rng 42 ((), ()) = Inr (low_instance, ((), ()))"
  "generated low_rng 20000 15 100 42 low_instance"
proof -
  obtain inst st' where
    g: "generate_data low_rng 42 ((), ()) = Inr (inst, st')"
    and s: "generated low_rng 20000 15 100 42 inst"
    using generate_data_generated [of low_rng 42 "((), ())"] by blast
  have "low_instance = inst"
    by (simp add: low_instance_def g)
  moreover have "st' = ((), ())"
    by (cases st') simp
  ultimately show "generate_data low_rng 42 ((), ()) = Inr (low_instance, ((), ()))"
    and "generated low_rng 20000 15 100 42 low_instance"
    using g s by simp_all
qed

lemma low_instance_ids:
  "''H1'' \<in> set (households low_instance)" "''EJ1'' \<in> set (all_hospitals low_instance)"
proof -
  have "''H1'' \<in> set (household_ids 20000)"
    unfolding household_ids_def set_map
    by (rule image_eqI [of _ _ 0]) (simp_all add: str_nat_1)
  moreover have "''EJ1'' \<in> set (site_ids 15 100)"
    unfolding site_ids_def set_append set_map
    by (rule UnI1, rule image_eqI [of _ _ 0]) (simp_all add: str_nat_1)
  ultimately show "''H1'' \<in> set (households low_instance)"
    and "''EJ1'' \<in> set (all_hospitals low_instance)"
    using low_instance_generated(2) unfolding generated_def by simp_all
qed

lemma low_instance_distance: "travel_distance low_instance ''H1'' ''EJ1'' = Some (- 10)"
proof -
  obtain dv where dv: "travel_distance low_instance ''H1'' ''EJ1'' = Some dv"
    using generated_indicator [OF low_instance_generated(2) low_instance_ids] by blast
  then have "dv = - 10"
    using generated_distance [OF low_instance_generated(2) dv] by (rule_tac perturbed_low)
  with dv show ?thesis by simp
qed

lemma low_instance_max_distance: "max_travel_distance low_instance = 8"
  using low_instance_generated(2) unfolding generated_def
  by (simp add: drawn_max_distance_def low_rng_def round2_8)

lemma generated_indicators_binary:
  assumes "generated R n m k seed inst"
  shows "indicators_binary inst"
  unfolding indicators_binary_def
proof (intro ballI allI impI)
  fix i j a
  assume "i \<in> set (households inst)" "j \<in> set (all_hospitals inst)"
    and a: "indicator inst i j = Some a"
  then obtain dv where
    "indicator inst i j = Some (if dv \<le> max_travel_distance inst then 1 else 0)"
    using generated_indicator [OF assms] by blast
  with a show "a = 0 \<or> a = 1"
    by (simp split: if_splits)
qed

lemma solve_status_UNIV: "(UNIV :: solve_status set) = {Optimal, Limited_feasible, Infeasible, Other_error}"
proof
  show "UNIV \<subseteq> {Optimal, Limited_feasible, Infeasible, Other_error}"
  proof
    fix x :: solve_status
    show "x \<in> {Optimal, Limited_feasible, Infeasible, Other_error}"
      by (cases x) simp_all
  qed
qed simp

lemma no_injection_into_solve_status:
  assumes "inj_on (f :: int \<Rightarrow> solve_status) S" and "finite S"
  shows "card S \<le> 4"
proof -
  have "finite (UNIV :: solve_status set)"
    by (simp add: solve_status_UNIV)
  then have "card (f ` S) \<le> card (UNIV :: solve_status set)"
    by (rule card_mono) (rule subset_UNIV)
  moreover have "card (f ` S) = card S"
    using assms(1) by (rule card_image)
  moreover have "card (UNIV :: solve_status set) = 4"
    by (simp add: solve_status_UNIV)
  ultimately show ?thesis by simp
qed

section \<open>Claims about the instance generator\<close>




text \<open>
  C3. The result of \<^verbatim>\<open>generate_data\<close>, the instance and the state in which it leaves the
  two generators, depends on the seed only and not on the state of the generators
  before the call: two invocations with the same seed (and sizes) return the same.
\<close>

theorem generate_data_deterministic:
  "generate_data R seed st1 = generate_data R seed st2 \<and>
   generate_data_sized R n m k seed st1 = generate_data_sized R n m k seed st2"
  by (simp add: generate_data_def generate_data_sized_def)



text \<open>
  C8. \<^verbatim>\<open>generate_data\<close> returns an instance in which, for every listed household and
  site, the stored indicator is 1 when the stored distance is at most the stored maximum
  travel distance and 0 otherwise; running the indicator loop again on the stored
  distances and the stored maximum reproduces the stored indicators.
\<close>

theorem indicators_follow_stored_distances:
  "\<exists>inst st'. generate_data R seed st = Inr (inst, st') \<and>
     (\<forall>h\<in>set (households inst). \<forall>s\<in>set (all_hospitals inst).
        \<exists>dv. travel_distance inst h s = Some dv \<and>
             indicator inst h s = Some (if dv \<le> max_travel_distance inst then 1 else 0)) \<and>
     indicator_loop (travel_distances inst) (max_travel_distance inst) (households inst)
       (all_hospitals inst) Map.empty = Inr (distance_indicators inst)"
proof -
  obtain inst st' where
    g: "generate_data R seed st = Inr (inst, st')"
    and s: "generated R 20000 15 100 seed inst"
    using generate_data_generated [of R seed st] by blast
  have "indicator_loop (travel_distances inst) (max_travel_distance inst) (households inst)
       (all_hospitals inst) Map.empty = Inr (distance_indicators inst)"
    using s unfolding generated_def by blast
  then show ?thesis
    using g generated_indicator [OF s] by blast
qed

theorem indicators_follow_stored_distances_witness:
  "generate_data low_rng 42 ((), ()) = Inr (low_instance, ((), ())) \<and>
   ''H1'' \<in> set (households low_instance) \<and>
   ''EJ1'' \<in> set (all_hospitals low_instance) \<and>
   travel_distance low_instance ''H1'' ''EJ1'' = Some (- 10) \<and>
   max_travel_distance low_instance = 8 \<and>
   indicator low_instance ''H1'' ''EJ1'' = Some 1"
proof -
  obtain inst st' where
    g: "generate_data low_rng 42 ((), ()) = Inr (inst, st')"
    and b: "\<forall>h\<in>set (households inst). \<forall>s\<in>set (all_hospitals inst).
        \<exists>dv. travel_distance inst h s = Some dv \<and>
             indicator inst h s = Some (if dv \<le> max_travel_distance inst then 1 else 0)"
    using indicators_follow_stored_distances [of low_rng 42 "((), ())"] by blast
  have i: "inst = low_instance"
    using g low_instance_generated(1) by simp
  obtain dv where "travel_distance low_instance ''H1'' ''EJ1'' = Some dv"
    "indicator low_instance ''H1'' ''EJ1'' =
       Some (if dv \<le> max_travel_distance low_instance then 1 else 0)"
    using b low_instance_ids unfolding i by blast
  then have "indicator low_instance ''H1'' ''EJ1'' = Some 1"
    using low_instance_distance low_instance_max_distance by simp
  then show ?thesis
    using low_instance_generated(1) low_instance_ids low_instance_distance
      low_instance_max_distance by simp
qed

section \<open>Claims about the solve orchestrator\<close>

text \<open>
  C5 (amended). After the search the orchestrator tells only status code 2 (optimal) from
  every other status. For status 2 with an objective value it reports the label
  Optimal, the objective value, the solve time and the node count. For every other
  status, infeasible included, it reports the numeric status code as the engine gave it
  and the solve time, with no objective value, and does not raise.
\<close>

theorem report_tells_only_optimal_apart:
  "(Status model \<noteq> 2 \<longrightarrow>
      report_results model t = Inr [Status_code (Status model), Solve_time t]) \<and>
   (Status model = 2 \<longrightarrow> (\<forall>obj. ObjVal model = Some obj \<longrightarrow>
      report_results model t =
        Inr [Status_optimal, Objective obj, Solve_time t,
             Nodes_explored (py_int (NodeCount model))]))"
  by (simp add: report_results_def)

theorem report_tells_only_optimal_apart_witness:
  "report_results \<lparr>Status = 4, ObjVal = None, NodeCount = 0\<rparr> 2 = Inr [Status_code 4, Solve_time 2] \<and>
   report_results \<lparr>Status = 2, ObjVal = Some 350, NodeCount = 1\<rparr> 2 =
     Inr [Status_optimal, Objective 350, Solve_time 2, Nodes_explored 1]"
  using report_tells_only_optimal_apart [of "\<lparr>Status = 4, ObjVal = None, NodeCount = 0\<rparr>" 2]
    report_tells_only_optimal_apart [of "\<lparr>Status = 2, ObjVal = Some 350, NodeCount = 1\<rparr>" 2]
  by (simp add: py_int_def)

theorem infeasible_reported_as_raw_code_counterexample:
  "report_results \<lparr>Status = 3, ObjVal = None, NodeCount = 0\<rparr> 1 =
     Inr [Status_code 3, Solve_time 1] \<and>
   report_results \<lparr>Status = 9, ObjVal = Some 350, NodeCount = 12\<rparr> 1 =
     Inr [Status_code 9, Solve_time 1] \<and>
   \<not> (\<exists>classify :: int \<Rightarrow> solve_status. \<exists>render.
        \<forall>c\<in>{3, 4, 5, 9, 12}.
          report_results \<lparr>Status = c, ObjVal = None, NodeCount = 0\<rparr> 1 =
            Inr [render (classify c), Solve_time 1])"
proof -
  have "\<not> (\<exists>classify :: int \<Rightarrow> solve_status. \<exists>render.
        \<forall>c\<in>{3, 4, 5, 9, 12}.
          report_results \<lparr>Status = c, ObjVal = None, NodeCount = 0\<rparr> 1 =
            Inr [render (classify c), Solve_time 1])"
  proof
    assume "\<exists>classify :: int \<Rightarrow> solve_status. \<exists>render.
        \<forall>c\<in>{3, 4, 5, 9, 12}.
          report_results \<lparr>Status = c, ObjVal = None, NodeCount = 0\<rparr> 1 =
            Inr [render (classify c), Solve_time 1]"
    then obtain classify :: "int \<Rightarrow> solve_status" and render where
      r: "\<forall>c\<in>{3, 4, 5, 9, 12}.
          report_results \<lparr>Status = c, ObjVal = None, NodeCount = 0\<rparr> 1 =
            Inr [render (classify c), Solve_time 1]"
      by blast
    have c: "render (classify c) = Status_code c" if "c \<in> {3, 4, 5, 9, 12}" for c
    proof -
      have "c \<noteq> 2" using that by auto
      then have "report_results \<lparr>Status = c, ObjVal = None, NodeCount = 0\<rparr> 1 =
          Inr [Status_code c, Solve_time 1]"
        by (simp add: report_results_def)
      moreover have "report_results \<lparr>Status = c, ObjVal = None, NodeCount = 0\<rparr> 1 =
          Inr [render (classify c), Solve_time 1]"
        using r that by (rule bspec)
      ultimately show ?thesis by simp
    qed
    have "inj_on classify {3, 4, 5, 9, 12}"
    proof (rule inj_onI)
      fix a b :: int
      assume a: "a \<in> {3, 4, 5, 9, 12}" and b: "b \<in> {3, 4, 5, 9, 12}"
        and e: "classify a = classify b"
      have "Status_code a = render (classify a)"
        using c [OF a] by (rule sym)
      also have "\<dots> = render (classify b)"
        by (simp only: e)
      also have "\<dots> = Status_code b"
        by (rule c [OF b])
      finally show "a = b" by simp
    qed
    then have "card {3, 4, 5, 9, 12 :: int} \<le> 4"
      by (rule no_injection_into_solve_status) simp
    then show False by simp
  qed
  then show ?thesis
    by (simp add: report_results_def)
qed

end
